theory Spec2Isabelle
  imports Complex_Main "HOL-Library.Word" "HOL-Library.Sublist" "HOL-Library.Product_Lexorder"
begin

section \<open>JavaScript strings\<close>

text \<open>
  A JavaScript string is a sequence of UTF-16 code units. \<open>ascii\<close> embeds an Isabelle
  string literal, for concrete documents and paths.
\<close>

type_synonym jschar = "16 word"
type_synonym jsstring = "jschar list"

definition ascii :: "string \<Rightarrow> jsstring" where
  "ascii s = map of_char s"

text \<open>
  ECMAScript \<open>LineTerminator\<close>: LF, CR, U+2028, U+2029. The regular expression atom
  \<open>.\<close> matches every code unit but these; \<open>^\<close> and \<open>$\<close> with the flag \<open>m\<close> look for them.
\<close>

definition isLineTerminator :: "jschar \<Rightarrow> bool" where
  "isLineTerminator c = (c = 0x0A \<or> c = 0x0D \<or> c = 0x2028 \<or> c = 0x2029)"

text \<open>
  ECMAScript \<open>WhiteSpace\<close>: TAB, VT, FF, SP, NBSP, ZWNBSP and the Unicode category Zs.
\<close>

definition isWhiteSpace :: "jschar \<Rightarrow> bool" where
  "isWhiteSpace c =
     (c = 0x09 \<or> c = 0x0B \<or> c = 0x0C \<or> c = 0x20 \<or> c = 0xA0 \<or> c = 0x1680 \<or>
      (0x2000 \<le> c \<and> c \<le> 0x200A) \<or> c = 0x202F \<or> c = 0x205F \<or> c = 0x3000 \<or> c = 0xFEFF)"

text \<open>
  The class \<open>\s\<close> of a regular expression and the characters that
  \<open>String.prototype.trim\<close> strips are the same set: WhiteSpace and LineTerminator.
\<close>

definition isSpace :: "jschar \<Rightarrow> bool" where
  "isSpace c = (isWhiteSpace c \<or> isLineTerminator c)"

definition trim :: "jsstring \<Rightarrow> jsstring" where
  "trim s = rev (dropWhile isSpace (rev (dropWhile isSpace s)))"

definition substring :: "jsstring \<Rightarrow> nat \<Rightarrow> nat \<Rightarrow> jsstring" where
  "substring s p q = take (q - p) (drop p s)"

text \<open>\<open>s.includes(t)\<close>: \<open>t\<close> occurs in \<open>s\<close> as a contiguous run of code units.\<close>

fun includesString :: "jsstring \<Rightarrow> jsstring \<Rightarrow> bool" where
  "includesString [] t = (t = [])"
| "includesString (c # s) t = (prefix t (c # s) \<or> includesString s t)"

section \<open>Regular expressions and \<open>String.prototype.split\<close>\<close>

text \<open>
  A regular expression is modelled by its matcher at one position: given the code unit
  before the position (\<open>None\<close> at the start of the input) and the rest of the input from
  the position on, the length of the match that the backtracking matcher finds first, or
  \<open>None\<close>.

  \<open>greedy lo n k\<close> is a greedy quantifier with at least \<open>lo\<close> and at most \<open>n\<close>
  repetitions available: it tries \<open>n\<close> repetitions first and backtracks to fewer, down
  to \<open>lo\<close>, until the continuation \<open>k\<close> succeeds.
\<close>

type_synonym regex = "jschar option \<Rightarrow> jsstring \<Rightarrow> nat option"

fun greedy :: "nat \<Rightarrow> nat \<Rightarrow> (nat \<Rightarrow> nat option) \<Rightarrow> nat option" where
  "greedy lo 0 k = (if lo = 0 then k 0 else None)"
| "greedy lo (Suc n) k =
     (if Suc n < lo then None
      else (case k (Suc n) of Some r \<Rightarrow> Some r | None \<Rightarrow> greedy lo n k))"

definition run :: "(jschar \<Rightarrow> bool) \<Rightarrow> jsstring \<Rightarrow> nat" where
  "run P s = length (takeWhile P s)"

definition atLineStart :: "jschar option \<Rightarrow> bool" where
  "atLineStart prev = (case prev of None \<Rightarrow> True | Some c \<Rightarrow> isLineTerminator c)"

definition atLineEnd :: "jsstring \<Rightarrow> bool" where
  "atLineEnd rest = (case rest of [] \<Rightarrow> True | c # _ \<Rightarrow> isLineTerminator c)"

text \<open>
  The header pattern \<^verbatim>\<open>/^#{1,6}\s+.+$/m\<close> of \<open>splitIntoChunks\<close>:
  a line start, one to six \<open>#\<close>, white space (which may run over line ends), one or
  more code units of one line, a line end.
\<close>

definition headerRegex :: regex where
  "headerRegex prev rest =
     (if \<not> atLineStart prev then None
      else greedy 1 (min 6 (run (\<lambda>c. c = 0x23) rest)) (\<lambda>h.
           greedy 1 (run isSpace (drop h rest)) (\<lambda>w.
           greedy 1 (run (\<lambda>c. \<not> isLineTerminator c) (drop (h + w) rest)) (\<lambda>d.
             if atLineEnd (drop (h + w + d) rest) then Some (h + w + d) else None))))"

text \<open>The paragraph pattern \<^verbatim>\<open>/\n{2,}/\<close>: two or more line feeds.\<close>

definition paragraphRegex :: regex where
  "paragraphRegex prev rest = greedy 2 (run (\<lambda>c. c = 0x0A) rest) Some"

text \<open>
  \<open>RegExp.prototype[Symbol.split]\<close> without a limit, for a pattern without capture
  groups: \<open>p\<close> is the start of the piece being collected and \<open>q\<close> the position where a
  match is tried next. A match that ends at \<open>p\<close> is skipped; otherwise the piece from
  \<open>p\<close> to \<open>q\<close> is emitted and the search goes on behind the match.
\<close>

definition prevChar :: "jsstring \<Rightarrow> nat \<Rightarrow> jschar option" where
  "prevChar s q = (if q = 0 then None else Some (s ! (q - 1)))"

function splitLoop :: "regex \<Rightarrow> jsstring \<Rightarrow> nat \<Rightarrow> nat \<Rightarrow> jsstring list" where
  "splitLoop re s p q =
     (if q < length s then
        (case re (prevChar s q) (drop q s) of
           None \<Rightarrow> splitLoop re s p (Suc q)
         | Some n \<Rightarrow>
             (let e = min (q + n) (length s) in
              if e = p then splitLoop re s p (Suc q)
              else substring s p q # splitLoop re s e e))
      else [substring s p (length s)])"
  by pat_completeness auto
termination
  by (relation "measures [\<lambda>(re, s, p, q). length s - q,
                          \<lambda>(re, s, p, q). if p = q then 0 else 1]")
     (auto simp: min_def split: if_splits)

declare splitLoop.simps [simp del]

definition regexSplit :: "regex \<Rightarrow> jsstring \<Rightarrow> jsstring list" where
  "regexSplit re s =
     (if s = [] then (case re None [] of None \<Rightarrow> [s] | Some _ \<Rightarrow> [])
      else splitLoop re s 0 0)"

section \<open>The chunker\<close>

record document =
  content :: jsstring
  path :: jsstring
  filename :: jsstring

definition blankLine :: jsstring where
  "blankLine = [0x0A, 0x0A]"

text \<open>
  The inner loop of \<open>splitIntoChunks\<close> over the paragraphs of an oversized section; the
  state is the list of chunks and the buffer \<open>currentChunk\<close>.
\<close>

fun paragraphStep :: "nat \<Rightarrow> nat \<Rightarrow> jsstring list \<times> jsstring \<Rightarrow> jsstring \<Rightarrow> jsstring list \<times> jsstring" where
  "paragraphStep minSize maxSize (chunks, currentChunk) paragraph =
     (if length (trim paragraph) = 0 then (chunks, currentChunk)
      else if length currentChunk + length paragraph \<le> maxSize then
        (chunks, currentChunk @ (if currentChunk \<noteq> [] then blankLine else []) @ paragraph)
      else
        (if currentChunk \<noteq> [] \<and> length currentChunk \<ge> minSize
         then chunks @ [trim currentChunk] else chunks,
         paragraph))"

definition splitParagraphs :: "nat \<Rightarrow> nat \<Rightarrow> jsstring list \<Rightarrow> jsstring \<Rightarrow> jsstring list" where
  "splitParagraphs minSize maxSize chunks section =
     (case foldl (paragraphStep minSize maxSize) (chunks, []) (regexSplit paragraphRegex section) of
        (chunks', currentChunk) \<Rightarrow>
          if currentChunk \<noteq> [] \<and> length currentChunk \<ge> minSize
          then chunks' @ [trim currentChunk] else chunks')"

text \<open>
  One round of the outer loop. \<open>lastChunk\<close> is \<open>chunks[chunks.length - 1]\<close>:
  \<open>undefined\<close> for an empty list, and tested for truthiness (defined and not empty).
\<close>

definition sectionStep :: "nat \<Rightarrow> nat \<Rightarrow> jsstring list \<Rightarrow> jsstring \<Rightarrow> jsstring list" where
  "sectionStep minSize maxSize chunks section =
     (if length (trim section) = 0 then chunks
      else if length section \<le> maxSize then
        (if length section \<ge> minSize then chunks @ [trim section]
         else if chunks \<noteq> [] \<and> last chunks \<noteq> [] \<and>
                 length (last chunks) + length section \<le> maxSize
         then butlast chunks @ [last chunks @ blankLine @ trim section]
         else chunks @ [trim section])
      else splitParagraphs minSize maxSize chunks section)"

definition splitIntoChunks :: "document \<Rightarrow> nat \<Rightarrow> nat \<Rightarrow> jsstring list" where
  "splitIntoChunks doc minSize maxSize =
     foldl (sectionStep minSize maxSize) [] (regexSplit headerRegex (content doc))"

text \<open>
  The code units that are not white space, in order: what a chunk keeps of a text when
  trimming and separators are ignored.
\<close>

definition nonSpace :: "jsstring \<Rightarrow> jsstring" where
  "nonSpace s = filter (\<lambda>c. \<not> isSpace c) s"






section \<open>Numbers\<close>

text \<open>
  A JavaScript number is a double: a real, an infinity or NaN (the two zeros are one
  \<open>Num 0\<close>).
\<close>

datatype number = Num real | PosInf | NegInf | NaN

definition infinityOfSign :: "real \<Rightarrow> number" where
  "infinityOfSign a = (if a = 0 then NaN else if 0 < a then PosInf else NegInf)"

fun numNeg :: "number \<Rightarrow> number" where
  "numNeg (Num a) = Num (- a)"
| "numNeg PosInf = NegInf"
| "numNeg NegInf = PosInf"
| "numNeg NaN = NaN"

fun numAdd :: "number \<Rightarrow> number \<Rightarrow> number" where
  "numAdd (Num a) (Num b) = Num (a + b)"
| "numAdd NaN _ = NaN"
| "numAdd _ NaN = NaN"
| "numAdd PosInf NegInf = NaN"
| "numAdd NegInf PosInf = NaN"
| "numAdd PosInf _ = PosInf"
| "numAdd _ PosInf = PosInf"
| "numAdd NegInf _ = NegInf"
| "numAdd _ NegInf = NegInf"

definition numSub :: "number \<Rightarrow> number \<Rightarrow> number" where
  "numSub a b = numAdd a (numNeg b)"

fun numMul :: "number \<Rightarrow> number \<Rightarrow> number" where
  "numMul (Num a) (Num b) = Num (a * b)"
| "numMul NaN _ = NaN"
| "numMul _ NaN = NaN"
| "numMul (Num a) PosInf = infinityOfSign a"
| "numMul (Num a) NegInf = infinityOfSign (- a)"
| "numMul PosInf (Num b) = infinityOfSign b"
| "numMul NegInf (Num b) = infinityOfSign (- b)"
| "numMul PosInf PosInf = PosInf"
| "numMul PosInf NegInf = NegInf"
| "numMul NegInf PosInf = NegInf"
| "numMul NegInf NegInf = PosInf"

fun numSqrt :: "number \<Rightarrow> number" where
  "numSqrt (Num a) = (if a < 0 then NaN else Num (sqrt a))"
| "numSqrt PosInf = PosInf"
| "numSqrt NegInf = NaN"
| "numSqrt NaN = NaN"

fun numDiv :: "number \<Rightarrow> number \<Rightarrow> number" where
  "numDiv (Num a) (Num b) = (if b = 0 then infinityOfSign a else Num (a / b))"
| "numDiv NaN _ = NaN"
| "numDiv _ NaN = NaN"
| "numDiv (Num a) _ = Num 0"
| "numDiv PosInf (Num b) = (if b < 0 then NegInf else PosInf)"
| "numDiv NegInf (Num b) = (if b < 0 then PosInf else NegInf)"
| "numDiv _ _ = NaN"

text \<open>
  The floating-point operations \<open>+\<close>, \<open>*\<close>, \<open>Math.sqrt\<close> and \<open>/\<close> round their
  results. The functions that compute with them take the four operations as a parameter;
  the code is their instance at \<open>ieeeArithmetic\<close> below, and what is proved for every
  arithmetic holds for it. (That the two zeros are one number does no harm: the sums of
  \<open>cosineSimilarity\<close> start from \<open>+0\<close>, so neither they nor the divisor, a product
  of square roots, are ever \<open>-0\<close>.)
\<close>

record arithmetic =
  fadd :: "number \<Rightarrow> number \<Rightarrow> number"
  fmul :: "number \<Rightarrow> number \<Rightarrow> number"
  fsqrt :: "number \<Rightarrow> number"
  fdiv :: "number \<Rightarrow> number \<Rightarrow> number"

text \<open>
  The arithmetic of the machine is IEEE 754 binary64 with rounding to the nearest double,
  ties to the even one: the result of an operation is its exact result (\<open>numAdd\<close> and
  the others above), rounded. The doubles with the exponent \<open>e\<close> are the multiples of
  \<open>2 ^ (e - 52)\<close>; the exponent of a number is at least \<open>-1022\<close>, so that the numbers
  below \<open>2 ^ -1022\<close> round to multiples of \<open>2 ^ -1074\<close>; a number that rounds to
  \<open>2 ^ 1024\<close> or beyond becomes an infinity.
\<close>

definition roundNearestEven :: "real \<Rightarrow> int" where
  "roundNearestEven y =
     (let n = \<lfloor>y\<rfloor> in
      if y - of_int n < 1 / 2 then n
      else if 1 / 2 < y - of_int n then n + 1
      else if even n then n else n + 1)"

definition binadeExponent :: "real \<Rightarrow> int" where
  "binadeExponent x = max \<lfloor>log 2 \<bar>x\<bar>\<rfloor> (- 1022)"

definition overflowBound :: real where
  "overflowBound = 2 ^ 1024"

definition roundDouble :: "real \<Rightarrow> number" where
  "roundDouble x =
     (if x = 0 then Num 0
      else
        let u = 2 powr of_int (binadeExponent x - 52);
            r = of_int (roundNearestEven (x / u)) * u
        in if overflowBound \<le> \<bar>r\<bar> then (if 0 < x then PosInf else NegInf) else Num r)"

definition roundNumber :: "number \<Rightarrow> number" where
  "roundNumber v = (case v of Num r \<Rightarrow> roundDouble r | _ \<Rightarrow> v)"

definition ieeeArithmetic :: arithmetic where
  "ieeeArithmetic =
     \<lparr>fadd = (\<lambda>x y. roundNumber (numAdd x y)),
      fmul = (\<lambda>x y. roundNumber (numMul x y)),
      fsqrt = (\<lambda>x. roundNumber (numSqrt x)),
      fdiv = (\<lambda>x y. roundNumber (numDiv x y))\<rparr>"

section \<open>The vector store\<close>

record metadata =
  repository :: jsstring
  file' :: jsstring
  dependency :: jsstring

text \<open>
  An embedding is a list of finite numbers: JSON has no others, and the model is taken
  to produce no others.
\<close>

record VectorStoreEntry =
  chunk :: jsstring
  embedding :: "real list"
  metadata :: metadata

record VectorStore =
  entries :: "VectorStoreEntry list"

record Config =
  port :: nat
  githubToken :: "jsstring option"
  embeddingModel :: jsstring
  storageDir :: jsstring
  debugMode :: bool
  minChunkSize :: nat
  maxChunkSize :: nat
  chunksReturned :: nat

record Dependency =
  name :: jsstring
  version :: jsstring

record Repository =
  owner :: jsstring
  url :: jsstring
  ref :: jsstring

record SearchResult =
  text_chunk :: jsstring
  source_repository :: jsstring
  source_file :: jsstring
  similarity_score :: number

subsection \<open>The world: files, the model cache, and what was done\<close>

text \<open>
  A file holds a vector store as JSON, or something that \<open>fs.readJson\<close> cannot parse.
  The embedding model that \<open>pipeline\<close> loads is a function from a text to a vector that
  may throw (\<open>None\<close>), as loading itself may. The world records every call to the
  file system, to \<open>generateEmbedding\<close> (with its success) and to \<open>console.error\<close>.
  Of the file operations only \<open>readJson\<close> can throw, on a file that does not parse
  or does not exist; creating a directory, testing a path and writing succeed.
\<close>

datatype fileContent = StoreFile VectorStore | Unparsable

datatype error = PipelineError | GeneratorError | ReadJsonError

datatype consoleMessage = ErrorIndexing | StoreNotFound | ErrorSearching

datatype event =
    EnsureDir jsstring
  | PathExists jsstring
  | ReadJson jsstring
  | WriteJson jsstring
  | GenerateEmbedding jsstring bool
  | ConsoleError consoleMessage

type_synonym generator = "jsstring \<Rightarrow> real list option"

record world =
  files :: "jsstring \<Rightarrow> fileContent option"
  directories :: "jsstring set"
  embeddingGeneratorCache :: "generator option"
  events :: "event list"

definition emit :: "event \<Rightarrow> world \<Rightarrow> world" where
  "emit ev w = w\<lparr>events := events w @ [ev]\<rparr>"

text \<open>\<open>path.join\<close> of two segments (normalisation is not modelled).\<close>

definition pathJoin :: "jsstring \<Rightarrow> jsstring \<Rightarrow> jsstring" where
  "pathJoin a b = a @ ascii ''/'' @ b"

definition vectorStorePath :: "jsstring \<Rightarrow> jsstring" where
  "vectorStorePath projectPath =
     pathJoin (pathJoin projectPath (ascii ''.dependency-context'')) (ascii ''vector-store.json'')"

definition ensureDir :: "jsstring \<Rightarrow> world \<Rightarrow> world" where
  "ensureDir dir w = emit (EnsureDir dir) (w\<lparr>directories := insert dir (directories w)\<rparr>)"

definition pathExists :: "jsstring \<Rightarrow> world \<Rightarrow> bool \<times> world" where
  "pathExists p w = (files w p \<noteq> None, emit (PathExists p) w)"

text \<open>
  Modelled from the spec: \<open>fs.readJson\<close> and \<open>fs.writeJson\<close> belong to the library
  fs-extra, which is not among the sources. By its documentation \<open>writeJson\<close> writes
  \<open>JSON.stringify\<close> of the object to the file and \<open>readJson\<close> returns
  \<open>JSON.parse\<close> of the file's text; by the specification the representation on disk
  reconstructs every field of every record exactly. So a written file holds the store
  itself, and reading it gives the store back: JSON text keeps the order of the entries,
  every code unit of a string (what it escapes it reads back) and every finite double
  (it is printed with the digits that identify it).
\<close>

definition readJson :: "jsstring \<Rightarrow> world \<Rightarrow> (error + VectorStore) \<times> world" where
  "readJson p w =
     (case files w p of
        Some (StoreFile store) \<Rightarrow> (Inr store, emit (ReadJson p) w)
      | _ \<Rightarrow> (Inl ReadJsonError, emit (ReadJson p) w))"

definition writeJson :: "jsstring \<Rightarrow> VectorStore \<Rightarrow> world \<Rightarrow> world" where
  "writeJson p store w = emit (WriteJson p) (w\<lparr>files := (files w)(p \<mapsto> StoreFile store)\<rparr>)"

subsection \<open>\<open>generateEmbedding\<close>\<close>

definition defaultModel :: jsstring where
  "defaultModel = ascii ''Xenova/all-MiniLM-L6-v2''"

definition modelName :: "Config option \<Rightarrow> jsstring" where
  "modelName config =
     (case config of
        None \<Rightarrow> defaultModel
      | Some c \<Rightarrow> if embeddingModel c \<noteq> [] then embeddingModel c else defaultModel)"

definition generateEmbedding ::
  "(jsstring \<Rightarrow> generator option) \<Rightarrow> jsstring \<Rightarrow> Config option \<Rightarrow> world
     \<Rightarrow> (error + real list) \<times> world" where
  "generateEmbedding pipeline text config w =
     (case (case embeddingGeneratorCache w of
              None \<Rightarrow> pipeline (modelName config)
            | Some g \<Rightarrow> Some g) of
        None \<Rightarrow> (Inl PipelineError, emit (GenerateEmbedding text False) w)
      | Some g \<Rightarrow>
          (let w' = w\<lparr>embeddingGeneratorCache := Some g\<rparr> in
           case g text of
             None \<Rightarrow> (Inl GeneratorError, emit (GenerateEmbedding text False) w')
           | Some v \<Rightarrow> (Inr v, emit (GenerateEmbedding text True) w')))"

subsection \<open>\<open>indexDocumentation\<close>\<close>

text \<open>The loop over the chunks of one document; an exception leaves the loop.\<close>

fun indexChunks ::
  "(jsstring \<Rightarrow> generator option) \<Rightarrow> Config option \<Rightarrow> Dependency \<Rightarrow> Repository \<Rightarrow> document
     \<Rightarrow> jsstring list \<Rightarrow> VectorStoreEntry list \<times> world
     \<Rightarrow> (error + VectorStoreEntry list) \<times> world" where
  "indexChunks pipeline config dep repo doc [] (es, w) = (Inr es, w)"
| "indexChunks pipeline config dep repo doc (c # chunks) (es, w) =
     (if trim c = [] then indexChunks pipeline config dep repo doc chunks (es, w)
      else
        (case generateEmbedding pipeline c config w of
           (Inl e, w') \<Rightarrow> (Inl e, w')
         | (Inr v, w') \<Rightarrow>
             indexChunks pipeline config dep repo doc chunks
               (es @ [\<lparr>chunk = c, embedding = v,
                        metadata = \<lparr>repository = url repo, file' = path doc,
                                     dependency = name dep\<rparr>\<rparr>], w')))"

text \<open>The loop over the documents; \<open>splitIntoChunks\<close> is called with its default bounds.\<close>

fun indexDocuments ::
  "(jsstring \<Rightarrow> generator option) \<Rightarrow> Config option \<Rightarrow> Dependency \<Rightarrow> Repository
     \<Rightarrow> document list \<Rightarrow> VectorStoreEntry list \<times> world
     \<Rightarrow> (error + VectorStoreEntry list) \<times> world" where
  "indexDocuments pipeline config dep repo [] (es, w) = (Inr es, w)"
| "indexDocuments pipeline config dep repo (doc # docs) (es, w) =
     (case indexChunks pipeline config dep repo doc (splitIntoChunks doc 800 8000) (es, w) of
        (Inl e, w') \<Rightarrow> (Inl e, w')
      | (Inr es', w') \<Rightarrow> indexDocuments pipeline config dep repo docs (es', w'))"

text \<open>
  The body of the \<open>try\<close> block up to the write, then the write or the \<open>catch\<close> block,
  which logs and throws the error again.
\<close>

definition indexBody ::
  "(jsstring \<Rightarrow> generator option) \<Rightarrow> jsstring \<Rightarrow> Dependency \<Rightarrow> Repository \<Rightarrow> document list
     \<Rightarrow> Config option \<Rightarrow> world \<Rightarrow> (error + VectorStoreEntry list) \<times> world" where
  "indexBody pipeline projectPath dep repo documents config w =
     (let w1 = ensureDir (pathJoin projectPath (ascii ''.dependency-context'')) w in
      case pathExists (vectorStorePath projectPath) w1 of
        (True, w2) \<Rightarrow>
          (case readJson (vectorStorePath projectPath) w2 of
             (Inl e, w3) \<Rightarrow> (Inl e, w3)
           | (Inr store, w3) \<Rightarrow>
               indexDocuments pipeline config dep repo documents (entries store, w3))
      | (False, w2) \<Rightarrow> indexDocuments pipeline config dep repo documents ([], w2))"

definition indexDocumentation ::
  "(jsstring \<Rightarrow> generator option) \<Rightarrow> jsstring \<Rightarrow> Dependency \<Rightarrow> Repository \<Rightarrow> document list
     \<Rightarrow> Config option \<Rightarrow> world \<Rightarrow> (error + unit) \<times> world" where
  "indexDocumentation pipeline projectPath dep repo documents config w =
     (case indexBody pipeline projectPath dep repo documents config w of
        (Inl e, w') \<Rightarrow> (Inl e, emit (ConsoleError ErrorIndexing) w')
      | (Inr es, w') \<Rightarrow>
          (Inr (), writeJson (vectorStorePath projectPath) \<lparr>entries = es\<rparr> w'))"

subsection \<open>\<open>cosineSimilarity\<close>\<close>

text \<open>
  \<open>vec[i]\<close>: beyond the end of the array the value is \<open>undefined\<close>, which arithmetic
  turns into NaN.
\<close>

definition element :: "real list \<Rightarrow> nat \<Rightarrow> number" where
  "element vec i = (if i < length vec then Num (vec ! i) else NaN)"

definition cosineStep ::
  "arithmetic \<Rightarrow> real list \<Rightarrow> real list \<Rightarrow> nat \<Rightarrow> number \<times> number \<times> number
     \<Rightarrow> number \<times> number \<times> number" where
  "cosineStep ar vecA vecB i acc =
     (case acc of (dotProduct, normA, normB) \<Rightarrow>
        (fadd ar dotProduct (fmul ar (element vecA i) (element vecB i)),
         fadd ar normA (fmul ar (element vecA i) (element vecA i)),
         fadd ar normB (fmul ar (element vecB i) (element vecB i))))"

definition cosineSimilarity :: "arithmetic \<Rightarrow> real list \<Rightarrow> real list \<Rightarrow> number" where
  "cosineSimilarity ar vecA vecB =
     (case fold (cosineStep ar vecA vecB) [0..<length vecA] (Num 0, Num 0, Num 0) of
        (dotProduct, normA, normB) \<Rightarrow>
          fdiv ar dotProduct (fmul ar (fsqrt ar normA) (fsqrt ar normB)))"

subsection \<open>\<open>searchVectorStore\<close>\<close>

definition scoreEntry :: "arithmetic \<Rightarrow> real list \<Rightarrow> VectorStoreEntry \<Rightarrow> SearchResult" where
  "scoreEntry ar queryEmbedding entry =
     \<lparr>text_chunk = chunk entry,
      source_repository = repository (metadata entry),
      source_file = file' (metadata entry),
      similarity_score = cosineSimilarity ar queryEmbedding (embedding entry)\<rparr>"

text \<open>
  The filter runs when \<open>repositoryContext\<close> is truthy: given and not the empty string.
\<close>

definition filterByContext :: "jsstring option \<Rightarrow> SearchResult list \<Rightarrow> SearchResult list" where
  "filterByContext repositoryContext results =
     (case repositoryContext of
        None \<Rightarrow> results
      | Some ctx \<Rightarrow>
          if ctx = [] then results
          else filter (\<lambda>r. includesString (source_repository r) ctx \<or>
                            includesString (source_file r) ctx) results)"

text \<open>
  The comparator \<open>(a, b) => b.similarity_score - a.similarity_score\<close>, and how
  \<open>Array.prototype.sort\<close> reads its value: NaN counts as \<open>0\<close>. Only the sign of
  the difference is read, and the sign of a rounded difference of two doubles is the sign
  of their exact difference (two different doubles never have the difference zero, and a
  difference that overflows is the infinity of its sign), so the difference is taken
  exactly.
\<close>

definition compareScores :: "SearchResult \<Rightarrow> SearchResult \<Rightarrow> number" where
  "compareScores a b = numSub (similarity_score b) (similarity_score a)"

definition comparatorSign :: "number \<Rightarrow> real" where
  "comparatorSign v = (case v of Num x \<Rightarrow> x | PosInf \<Rightarrow> 1 | NegInf \<Rightarrow> - 1 | NaN \<Rightarrow> 0)"

text \<open>
  \<open>Array.prototype.sort\<close> is stable. For a consistent comparator that fixes the result,
  whatever the algorithm; the model is a stable insertion sort. Where the comparator is
  not consistent (NaN scores) ECMAScript leaves the order to the implementation, and the
  model is one such implementation.
\<close>

fun insertSorted :: "('a \<Rightarrow> 'a \<Rightarrow> number) \<Rightarrow> 'a \<Rightarrow> 'a list \<Rightarrow> 'a list" where
  "insertSorted cmp x [] = [x]"
| "insertSorted cmp x (y # ys) =
     (if comparatorSign (cmp x y) \<le> 0 then x # y # ys else y # insertSorted cmp x ys)"

definition sortBy :: "('a \<Rightarrow> 'a \<Rightarrow> number) \<Rightarrow> 'a list \<Rightarrow> 'a list" where
  "sortBy cmp xs = foldr (insertSorted cmp) xs []"

text \<open>Lines 355 to 376: score, filter, sort, and the first five.\<close>

definition rankEntries ::
  "arithmetic \<Rightarrow> real list \<Rightarrow> jsstring option \<Rightarrow> VectorStoreEntry list \<Rightarrow> SearchResult list" where
  "rankEntries ar queryEmbedding repositoryContext es =
     take 5 (sortBy compareScores
       (filterByContext repositoryContext (map (scoreEntry ar queryEmbedding) es)))"

definition searchVectorStore ::
  "arithmetic \<Rightarrow> (jsstring \<Rightarrow> generator option) \<Rightarrow> jsstring \<Rightarrow> jsstring \<Rightarrow> jsstring option
     \<Rightarrow> Config option \<Rightarrow> world \<Rightarrow> SearchResult list \<times> world" where
  "searchVectorStore ar pipeline projectPath query repositoryContext config w =
     (case generateEmbedding pipeline query config w of
        (Inl e, w1) \<Rightarrow> ([], emit (ConsoleError ErrorSearching) w1)
      | (Inr queryEmbedding, w1) \<Rightarrow>
          (case pathExists (vectorStorePath projectPath) w1 of
             (False, w2) \<Rightarrow> ([], emit (ConsoleError StoreNotFound) w2)
           | (True, w2) \<Rightarrow>
               (case readJson (vectorStorePath projectPath) w2 of
                  (Inl e, w3) \<Rightarrow> ([], emit (ConsoleError ErrorSearching) w3)
                | (Inr store, w3) \<Rightarrow>
                    (rankEntries ar queryEmbedding repositoryContext (entries store), w3))))"

subsection \<open>\<open>searchDependencyDocs\<close>\<close>

text \<open>
  The response is the object that \<open>searchDependencyDocs\<close> serialises. Its \<open>catch\<close>
  block, the only place that sets \<open>error\<close>, is not reached from the search:
  \<open>searchVectorStore\<close> catches every exception itself and \<open>getConfig\<close> throws none.
  The configuration that \<open>getConfig\<close> reads from the environment is a parameter.
\<close>

record SearchParams =
  project_path :: jsstring
  query :: jsstring
  repository_context :: "jsstring option"

record SearchResponse =
  results :: "SearchResult list"
  error :: "jsstring option"

definition searchDependencyDocs ::
  "arithmetic \<Rightarrow> (jsstring \<Rightarrow> generator option) \<Rightarrow> (jsstring \<Rightarrow> Config) \<Rightarrow> SearchParams
     \<Rightarrow> world \<Rightarrow> SearchResponse \<times> world" where
  "searchDependencyDocs ar pipeline getConfig params w =
     (case searchVectorStore ar pipeline (project_path params) (query params)
             (repository_context params) (Some (getConfig (project_path params))) w of
        (rs, w') \<Rightarrow> (\<lparr>results = rs, error = None\<rparr>, w'))"

section \<open>Notions for the statements\<close>

text \<open>
  The dot product and the Euclidean norm as the specification words them, computed in
  the floating-point arithmetic from left to right, to compare with what the loop of
  \<open>cosineSimilarity\<close> accumulates.
\<close>

definition floatSum :: "arithmetic \<Rightarrow> number list \<Rightarrow> number" where
  "floatSum ar xs = foldl (fadd ar) (Num 0) xs"

definition floatDot :: "arithmetic \<Rightarrow> real list \<Rightarrow> real list \<Rightarrow> number" where
  "floatDot ar a b = floatSum ar (map2 (\<lambda>x y. fmul ar (Num x) (Num y)) a b)"

definition floatNorm :: "arithmetic \<Rightarrow> real list \<Rightarrow> number" where
  "floatNorm ar a = fsqrt ar (floatSum ar (map (\<lambda>x. fmul ar (Num x) (Num x)) a))"

text \<open>
  The facts of IEEE 754 arithmetic that the scores of zero vectors and of short vectors
  rest on: NaN propagates; sums and products of zeros and finite numbers are zero, the
  square root of zero is zero, a product with zero is zero or NaN, and zero divided by
  zero is NaN.
\<close>

definition ieeeLaws :: "arithmetic \<Rightarrow> bool" where
  "ieeeLaws ar =
     ((\<forall>x. fmul ar x NaN = NaN \<and> fadd ar x NaN = NaN \<and> fadd ar NaN x = NaN \<and>
           fdiv ar NaN x = NaN \<and> fdiv ar x NaN = NaN) \<and>
      fadd ar (Num 0) (Num 0) = Num 0 \<and>
      (\<forall>y. fmul ar (Num 0) (Num y) = Num 0 \<and> fmul ar (Num y) (Num 0) = Num 0) \<and>
      fsqrt ar (Num 0) = Num 0 \<and>
      (\<forall>v. fmul ar (Num 0) v = Num 0 \<or> fmul ar (Num 0) v = NaN) \<and>
      (\<forall>v. fmul ar v (Num 0) = Num 0 \<or> fmul ar v (Num 0) = NaN) \<and>
      fdiv ar (Num 0) (Num 0) = NaN)"

text \<open>
  The place of a score in the descending order, and JavaScript's \<open>>=\<close> on numbers, which
  is false as soon as one side is NaN.
\<close>

definition scoreRank :: "number \<Rightarrow> nat \<times> real" where
  "scoreRank v =
     (case v of PosInf \<Rightarrow> (0, 0) | Num x \<Rightarrow> (1, - x) | NegInf \<Rightarrow> (2, 0) | NaN \<Rightarrow> (3, 0))"

fun numGe :: "number \<Rightarrow> number \<Rightarrow> bool" where
  "numGe (Num a) (Num b) = (b \<le> a)"
| "numGe NaN _ = False"
| "numGe _ NaN = False"
| "numGe PosInf _ = True"
| "numGe _ NegInf = True"
| "numGe _ _ = False"

text \<open>
  The model that the calls to \<open>generateEmbedding\<close> of a run use: the cached one, or
  else the one that \<open>pipeline\<close> loads (and that is cached from then on).
\<close>

definition embeddingGenerator ::
  "(jsstring \<Rightarrow> generator option) \<Rightarrow> Config option \<Rightarrow> world \<Rightarrow> generator option" where
  "embeddingGenerator pipeline config w =
     (case embeddingGeneratorCache w of
        None \<Rightarrow> pipeline (modelName config)
      | Some g \<Rightarrow> Some g)"

text \<open>
  What a call of \<open>indexDocumentation\<close> has to store: for each document in turn, each
  of its chunks that is not blank. A record belongs to such a chunk when it holds the
  chunk, the embedding that the model gives for it, the URL of the repository, the path
  of the document, and the name of the dependency.
\<close>

definition indexJobs :: "document list \<Rightarrow> (document \<times> jsstring) list" where
  "indexJobs docs =
     concat (map (\<lambda>d. map (Pair d) (filter (\<lambda>c. trim c \<noteq> []) (splitIntoChunks d 800 8000)))
       docs)"

definition isRecordOf ::
  "generator option \<Rightarrow> Dependency \<Rightarrow> Repository \<Rightarrow> document \<times> jsstring \<Rightarrow> VectorStoreEntry
     \<Rightarrow> bool" where
  "isRecordOf gen dep repo job e =
     (chunk e = snd job \<and>
      Option.bind gen (\<lambda>g. g (snd job)) = Some (embedding e) \<and>
      metadata e = \<lparr>repository = url repo, file' = path (fst job), dependency = name dep\<rparr>)"

text \<open>What a run adds to the record of events.\<close>

definition newEvents :: "world \<Rightarrow> world \<Rightarrow> event list" where
  "newEvents w w' = drop (length (events w)) (events w')"

text \<open>The entries of the store file at a path; none when there is no store.\<close>

definition storedEntries :: "world \<Rightarrow> jsstring \<Rightarrow> VectorStoreEntry list" where
  "storedEntries w p = (case files w p of Some (StoreFile store) \<Rightarrow> entries store | _ \<Rightarrow> [])"

fun isReadJson :: "event \<Rightarrow> bool" where
  "isReadJson (ReadJson p) = True"
| "isReadJson _ = False"

text \<open>
  Kinds of events. An embedding run is the record of the calls to
  \<open>generateEmbedding\<close> of a loop: all successful, or successful up to a failed last one.
\<close>

fun isWriteJson :: "event \<Rightarrow> bool" where
  "isWriteJson (WriteJson p) = True"
| "isWriteJson _ = False"

fun isEmbedded :: "event \<Rightarrow> bool" where
  "isEmbedded (GenerateEmbedding t ok) = ok"
| "isEmbedded _ = False"

fun isEmbeddingFailure :: "event \<Rightarrow> bool" where
  "isEmbeddingFailure (GenerateEmbedding t ok) = (\<not> ok)"
| "isEmbeddingFailure _ = False"

fun isPreparation :: "event \<Rightarrow> bool" where
  "isPreparation (EnsureDir d) = True"
| "isPreparation (PathExists p) = True"
| "isPreparation (ReadJson p) = True"
| "isPreparation _ = False"

definition embeddingRun :: "bool \<Rightarrow> event list \<Rightarrow> bool" where
  "embeddingRun ok evs =
     (if ok then list_all isEmbedded evs
      else evs \<noteq> [] \<and> list_all isEmbedded (butlast evs) \<and> isEmbeddingFailure (last evs))"

section \<open>Example inputs\<close>

text \<open>
  A world without files, a model that fails on the text \<open>alpha\<close>, and documents
  made of one text.
\<close>

definition emptyWorld :: world where
  "emptyWorld = \<lparr>files = Map.empty, directories = {}, embeddingGeneratorCache = None, events = []\<rparr>"

definition alphaPipeline :: "jsstring \<Rightarrow> generator option" where
  "alphaPipeline model = Some (\<lambda>t. if t = ascii ''alpha'' then None else Some [1, 0])"

definition exampleDependency :: Dependency where
  "exampleDependency = \<lparr>name = ascii ''express'', version = ascii ''4.17.1''\<rparr>"

definition exampleRepository :: Repository where
  "exampleRepository = \<lparr>owner = ascii ''expressjs'', url = ascii ''https://github.com/expressjs/express'', ref = ascii ''main''\<rparr>"

definition textDocument :: "string \<Rightarrow> string \<Rightarrow> document" where
  "textDocument p t = \<lparr>content = ascii t, path = ascii p, filename = ascii p\<rparr>"

text \<open>
  The inputs of the repository's own tests: the mocked pipeline (every text embeds to
  \<open>[0.1, 0.2, 0.3]\<close>), the configuration with \<open>chunksReturned = 8\<close>, the store
  entries, and a world whose only file is the store of the project \<open>/test/project\<close>.
  Beside them a pipeline that fails to load its model and one that embeds every text to
  \<open>[3, 4]\<close>.
\<close>

definition mockEmbedding :: "real list" where
  "mockEmbedding = [1 / 10, 2 / 10, 3 / 10]"

definition mockPipeline :: "jsstring \<Rightarrow> generator option" where
  "mockPipeline model = Some (\<lambda>t. Some mockEmbedding)"

definition failingPipeline :: "jsstring \<Rightarrow> generator option" where
  "failingPipeline model = None"

definition unitPipeline :: "jsstring \<Rightarrow> generator option" where
  "unitPipeline model = Some (\<lambda>t. Some [3, 4])"

definition testConfig :: Config where
  "testConfig = \<lparr>port = 3000, githubToken = None, embeddingModel = ascii ''test-model'',
     storageDir = ascii ''.test'', debugMode = False, minChunkSize = 800, maxChunkSize = 8000,
     chunksReturned = 8\<rparr>"

definition testEntry :: "nat \<Rightarrow> VectorStoreEntry" where
  "testEntry i =
     \<lparr>chunk = ascii ''Test chunk '' @ [of_nat (48 + i)], embedding = mockEmbedding,
      metadata = \<lparr>repository = ascii ''https://github.com/test/repo'',
                  file' = ascii ''/file'' @ [of_nat (48 + i)] @ ascii ''.md'',
                  dependency = ascii ''test-package''\<rparr>\<rparr>"

definition vectorEntry :: "string \<Rightarrow> real list \<Rightarrow> VectorStoreEntry" where
  "vectorEntry t v =
     \<lparr>chunk = ascii t, embedding = v,
      metadata = \<lparr>repository = ascii ''https://github.com/test/repo'', file' = ascii ''/README.md'',
                  dependency = ascii ''test-package''\<rparr>\<rparr>"

definition storeWorld :: "fileContent \<Rightarrow> world" where
  "storeWorld f =
     \<lparr>files = [vectorStorePath (ascii ''/test/project'') \<mapsto> f], directories = {},
      embeddingGeneratorCache = None, events = []\<rparr>"

definition testParams :: SearchParams where
  "testParams = \<lparr>project_path = ascii ''/test/project'', query = ascii ''test query'',
     repository_context = None\<rparr>"

text \<open>
  Stores for the ranking, searched with the query vector \<open>[3, 4]\<close>: one with a zero
  vector before the query vector itself, and one whose vectors all have norm 5 and the
  scores 0, 1, -1 and 1. On them no operation of \<open>cosineSimilarity\<close> rounds.
\<close>

definition zeroStore :: VectorStore where
  "zeroStore = \<lparr>entries = [vectorEntry ''zero'' [0, 0], vectorEntry ''same'' [3, 4]]\<rparr>"

definition normFiveStore :: VectorStore where
  "normFiveStore = \<lparr>entries = [vectorEntry ''a'' [4, - 3], vectorEntry ''b'' [3, 4],
                                vectorEntry ''c'' [- 3, - 4], vectorEntry ''d'' [3, 4]]\<rparr>"

text \<open>
  The same store behind a record of another repository whose embedding is the zero
  vector.
\<close>

definition foreignEntry :: VectorStoreEntry where
  "foreignEntry =
     \<lparr>chunk = ascii ''z'', embedding = [0, 0],
      metadata = \<lparr>repository = ascii ''https://github.com/other/lib'', file' = ascii ''/z.md'',
                  dependency = ascii ''other''\<rparr>\<rparr>"

definition mixedStore :: VectorStore where
  "mixedStore = \<lparr>entries = foreignEntry # entries normFiveStore\<rparr>"

text \<open>
  A pipeline that embeds every text to \<open>[1, 1, 1]\<close>, and a store of two parallel
  vectors, whose scores against it are equal in exact arithmetic and differ in doubles.
\<close>

definition onesPipeline :: "jsstring \<Rightarrow> generator option" where
  "onesPipeline model = Some (\<lambda>t. Some [1, 1, 1])"

definition scaledStore :: VectorStore where
  "scaledStore = \<lparr>entries = [vectorEntry ''threes'' [3, 3, 3], vectorEntry ''ones'' [1, 1, 1]]\<rparr>"

text \<open>
  A document of 7996 letters \<open>a\<close>, the header line \<open># h\<close> and the line
  \<open>def\<close> without a final line end.
\<close>

definition longDocument :: document where
  "longDocument = \<lparr>content = replicate 7996 0x61 @ ascii ''\<newline># h\<newline>def'',
     path = ascii ''/long.md'', filename = ascii ''long.md''\<rparr>"

section \<open>Properties of strings and of the chunker\<close>

lemma nonSpace_append [simp]: "nonSpace (xs @ ys) = nonSpace xs @ nonSpace ys"
  by (simp add: nonSpace_def)

lemma nonSpace_Nil [simp]: "nonSpace [] = []"
  by (simp add: nonSpace_def)

lemma nonSpace_dropWhile: "nonSpace (dropWhile isSpace s) = nonSpace s"
  by (induction s) (auto simp: nonSpace_def)

lemma nonSpace_rev: "nonSpace (rev s) = rev (nonSpace s)"
  by (simp add: nonSpace_def rev_filter)

lemma nonSpace_trim [simp]: "nonSpace (trim s) = nonSpace s"
  by (simp add: trim_def nonSpace_rev nonSpace_dropWhile)


lemma nonSpace_blankLine [simp]: "nonSpace blankLine = []"
  by (simp add: nonSpace_def blankLine_def isSpace_def isLineTerminator_def)




































section \<open>Properties of cosine similarity and of sorting\<close>

lemma cosineStep_apply:
  "cosineStep ar a b i (d, na, nb) =
     (fadd ar d (fmul ar (element a i) (element b i)),
      fadd ar na (fmul ar (element a i) (element a i)),
      fadd ar nb (fmul ar (element b i) (element b i)))"
  by (simp add: cosineStep_def)

lemma floatSum_snoc: "floatSum ar (xs @ [x]) = fadd ar (floatSum ar xs) x"
  by (simp add: floatSum_def)

text \<open>The loop accumulates the three sums of the specification, coordinate by coordinate.\<close>

lemma fold_cosineStep:
  "n \<le> length a \<Longrightarrow> n \<le> length b \<Longrightarrow>
   fold (cosineStep ar a b) [0..<n] (Num 0, Num 0, Num 0) =
     (floatDot ar (take n a) (take n b),
      floatSum ar (map (\<lambda>x. fmul ar (Num x) (Num x)) (take n a)),
      floatSum ar (map (\<lambda>x. fmul ar (Num x) (Num x)) (take n b)))"
proof (induction n)
  case 0
  show ?case by (simp add: floatDot_def floatSum_def)
next
  case (Suc n)
  then have n: "n < length a" "n < length b" by simp_all
  with Suc show ?case
    by (simp add: cosineStep_apply element_def take_Suc_conv_app_nth floatDot_def
        floatSum_snoc)
qed

lemma fold_cosineStep_short:
  assumes "ieeeLaws ar"
  shows "length b < n \<Longrightarrow> n \<le> length a \<Longrightarrow>
   \<exists>na. fold (cosineStep ar a b) [0..<n] (Num 0, Num 0, Num 0) = (NaN, na, NaN)"
proof (induction n)
  case 0
  then show ?case by simp
next
  case (Suc n)
  show ?case
  proof (cases "length b < n")
    case True
    with Suc obtain na where
      "fold (cosineStep ar a b) [0..<n] (Num 0, Num 0, Num 0) = (NaN, na, NaN)"
      by auto
    with assms show ?thesis by (simp add: cosineStep_apply ieeeLaws_def)
  next
    case False
    with Suc.prems have n: "n = length b" by simp
    obtain d na nb where "fold (cosineStep ar a b) [0..<n] (Num 0, Num 0, Num 0) = (d, na, nb)"
      by (metis prod_cases3)
    with assms n show ?thesis
      by (simp add: cosineStep_apply element_def ieeeLaws_def)
  qed
qed

lemma zip_take_length: "zip a (take (length a) b) = zip a b"
proof (induction a arbitrary: b)
  case Nil
  show ?case by simp
next
  case (Cons x a)
  then show ?case by (cases b) simp_all
qed

lemma floatDot_take: "floatDot ar a (take (length a) b) = floatDot ar a b"
  by (simp add: floatDot_def zip_take_length)

lemma cosineSimilarity_short:
  "ieeeLaws ar \<Longrightarrow> length b < length a \<Longrightarrow> cosineSimilarity ar a b = NaN"
  using fold_cosineStep_short [of ar b "length a" a]
  by (auto simp: cosineSimilarity_def ieeeLaws_def)

lemma cosineSimilarity_long:
  assumes "length a \<le> length b"
  shows "cosineSimilarity ar a b =
     fdiv ar (floatDot ar a b)
       (fmul ar (floatNorm ar a) (floatNorm ar (take (length a) b)))"
  using fold_cosineStep [of "length a" a b ar] assms
  by (simp add: cosineSimilarity_def floatNorm_def floatDot_take)

lemma floatSum_zeros:
  "ieeeLaws ar \<Longrightarrow> list_all (\<lambda>v. v = Num 0) xs \<Longrightarrow> floatSum ar xs = Num 0"
  by (induction xs rule: rev_induct) (simp_all add: floatSum_snoc ieeeLaws_def, simp add: floatSum_def)

lemma floatDot_zero_left:
  "ieeeLaws ar \<Longrightarrow> list_all (\<lambda>x. x = 0) a \<Longrightarrow> floatDot ar a b = Num 0"
  unfolding floatDot_def
  by (rule floatSum_zeros)
     (auto simp: list_all_iff ieeeLaws_def dest!: set_zip_leftD)

lemma floatDot_zero_right:
  "ieeeLaws ar \<Longrightarrow> list_all (\<lambda>x. x = 0) b \<Longrightarrow> floatDot ar a b = Num 0"
  unfolding floatDot_def
  by (rule floatSum_zeros)
     (auto simp: list_all_iff ieeeLaws_def dest!: set_zip_rightD)

lemma floatNorm_zero:
  "ieeeLaws ar \<Longrightarrow> list_all (\<lambda>x. x = 0) a \<Longrightarrow> floatNorm ar a = Num 0"
proof -
  assume l: "ieeeLaws ar" and z: "list_all (\<lambda>x. x = 0) a"
  have "floatSum ar (map (\<lambda>x. fmul ar (Num x) (Num x)) a) = Num 0"
    by (rule floatSum_zeros [OF l]) (use l z in \<open>auto simp: list_all_iff ieeeLaws_def\<close>)
  with l show ?thesis by (simp add: floatNorm_def ieeeLaws_def)
qed

text \<open>A zero vector on either side gives \<open>0 / 0\<close> or \<open>0 / NaN\<close>.\<close>

lemma cosineSimilarity_zero:
  assumes "ieeeLaws ar" and "length a \<le> length b"
    and "list_all (\<lambda>x. x = 0) a \<or> list_all (\<lambda>x. x = 0) (take (length a) b)"
  shows "cosineSimilarity ar a b = NaN"
proof -
  let ?b = "take (length a) b"
  have dot: "floatDot ar a b = Num 0"
    using assms(3) floatDot_zero_left [OF assms(1), of a ?b]
      floatDot_zero_right [OF assms(1), of ?b a]
    by (auto simp: floatDot_take)
  have "fmul ar (floatNorm ar a) (floatNorm ar ?b) = Num 0 \<or>
        fmul ar (floatNorm ar a) (floatNorm ar ?b) = NaN"
    using assms(1,3) floatNorm_zero [OF assms(1), of a] floatNorm_zero [OF assms(1), of ?b]
    by (auto simp: ieeeLaws_def)
  with dot assms(1) show ?thesis
    by (auto simp: cosineSimilarity_long [OF assms(2)] ieeeLaws_def)
qed

text \<open>
  Rounding: a real within half a unit of a multiple of the unit of its binade rounds to
  that multiple, and the integers below \<open>2 ^ 53\<close> are doubles.
\<close>

lemma roundNearestEven_near:
  assumes "\<bar>y - of_int n\<bar> < 1 / 2"
  shows "roundNearestEven y = n"
proof (cases "of_int n \<le> y")
  case True
  with assms have "\<lfloor>y\<rfloor> = n" by (intro floor_unique) (auto simp: abs_if split: if_splits)
  with assms True show ?thesis by (simp add: roundNearestEven_def)
next
  case False
  with assms have f: "\<lfloor>y\<rfloor> = n - 1" by (intro floor_unique) (auto simp: abs_if split: if_splits)
  from assms False have "1 / 2 < y - of_int (n - 1)" by (auto simp: abs_if split: if_splits)
  with f show ?thesis by (simp add: roundNearestEven_def)
qed

lemma roundNearestEven_int [simp]: "roundNearestEven (of_int k) = k"
  by (rule roundNearestEven_near) simp

lemma binadeExponent_eq:
  assumes "2 powr of_int e \<le> \<bar>x\<bar>" and "\<bar>x\<bar> < 2 powr of_int (e + 1)" and "- 1022 \<le> e"
  shows "binadeExponent x = e"
proof -
  from assms(1) have "0 < \<bar>x\<bar>"
    using powr_gt_zero [of 2 "real_of_int e"] by linarith
  then have "\<lfloor>log 2 \<bar>x\<bar>\<rfloor> = e"
    using assms(1,2) by (simp add: floor_log_eq_powr_iff)
  with assms(3) show ?thesis by (simp add: binadeExponent_def)
qed

lemma roundDouble_near:
  assumes "2 powr of_int e \<le> \<bar>x\<bar>" and "\<bar>x\<bar> < 2 powr of_int (e + 1)" and "- 1022 \<le> e"
    and "\<bar>x / 2 powr of_int (e - 52) - of_int n\<bar> < 1 / 2"
    and "\<bar>real_of_int n * 2 powr of_int (e - 52)\<bar> < overflowBound"
  shows "roundDouble x = Num (of_int n * 2 powr of_int (e - 52))"
proof -
  from assms(1) have "x \<noteq> 0"
    using powr_gt_zero [of 2 "real_of_int e"] by auto
  with binadeExponent_eq [OF assms(1-3)] roundNearestEven_near [OF assms(4)] assms(5)
  show ?thesis by (simp add: roundDouble_def Let_def)
qed

lemma roundDouble_zero [simp]: "roundDouble 0 = Num 0"
  by (simp add: roundDouble_def)

lemma roundDouble_of_int:
  assumes "\<bar>k\<bar> < 2 ^ 53"
  shows "roundDouble (of_int k) = Num (of_int k)"
proof (cases "k = 0")
  case True
  then show ?thesis by simp
next
  case False
  define e where "e = \<lfloor>log 2 \<bar>real_of_int k\<bar>\<rfloor>"
  from False have "1 \<le> \<bar>k\<bar>" by simp
  then have "real_of_int 1 \<le> real_of_int \<bar>k\<bar>" by (simp only: of_int_le_iff)
  then have pos: "1 \<le> \<bar>real_of_int k\<bar>" by simp
  have e0: "0 \<le> e" unfolding e_def using pos by simp
  from assms have "real_of_int \<bar>k\<bar> < real_of_int (2 ^ 53)" by (simp only: of_int_less_iff)
  then have small: "\<bar>real_of_int k\<bar> < 2 ^ 53" by simp
  then have "log 2 \<bar>real_of_int k\<bar> < 53"
    using pos by (simp add: log_less_iff)
  then have e52: "e \<le> 52" unfolding e_def by linarith
  have b: "binadeExponent (of_int k) = e"
    using e0 by (simp add: binadeExponent_def e_def)
  have u: "2 powr real_of_int (e - 52) = 1 / 2 ^ nat (52 - e)"
  proof -
    have "2 powr real_of_int (e - 52) =
        (if 0 \<le> e - 52 then 2 ^ nat (e - 52) else inverse (2 ^ nat (- (e - 52))))"
      by (rule powr_real_of_int) simp
    also from e52 have "\<dots> = 1 / 2 ^ nat (52 - e)"
      by (cases "e = 52") (simp_all add: inverse_eq_divide)
    finally show ?thesis .
  qed
  have q: "real_of_int k / (1 / 2 ^ nat (52 - e)) = of_int (k * 2 ^ nat (52 - e))"
    by simp
  have "roundNearestEven (real_of_int k / 2 powr real_of_int (e - 52)) = k * 2 ^ nat (52 - e)"
    unfolding u q by (rule roundNearestEven_int)
  then have r: "of_int (roundNearestEven (real_of_int k / 2 powr real_of_int (e - 52))) *
      2 powr real_of_int (e - 52) = real_of_int k"
    unfolding u by simp
  have "(2 :: real) ^ 53 \<le> 2 ^ 1024" by (rule power_increasing) simp_all
  with small have "\<bar>real_of_int k\<bar> < overflowBound" by (simp add: overflowBound_def)
  with False b r show ?thesis by (simp add: roundDouble_def Let_def)
qed

lemma roundDouble_numeral [simp]:
  "numeral k < (2 :: int) ^ 53 \<Longrightarrow> roundDouble (numeral k) = Num (numeral k)"
  "numeral k < (2 :: int) ^ 53 \<Longrightarrow> roundDouble (- numeral k) = Num (- numeral k)"
  "roundDouble 1 = Num 1" "roundDouble (- 1) = Num (- 1)"
  using roundDouble_of_int [of "numeral k"] roundDouble_of_int [of "- numeral k"]
    roundDouble_of_int [of 1] roundDouble_of_int [of "- 1"]
  by simp_all

lemma roundNumber_simps [simp]:
  "roundNumber (Num r) = roundDouble r" "roundNumber NaN = NaN"
  "roundNumber PosInf = PosInf" "roundNumber NegInf = NegInf"
  by (simp_all add: roundNumber_def)

lemma ieeeArithmetic_laws: "ieeeLaws ieeeArithmetic"
proof -
  have "numMul x NaN = NaN" "numAdd x NaN = NaN" "numDiv x NaN = NaN"
    "roundNumber (numMul (Num 0) x) = Num 0 \<or> roundNumber (numMul (Num 0) x) = NaN"
    "roundNumber (numMul x (Num 0)) = Num 0 \<or> roundNumber (numMul x (Num 0)) = NaN" for x
    by (cases x; simp add: infinityOfSign_def)+
  then show ?thesis
    by (simp add: ieeeLaws_def ieeeArithmetic_def infinityOfSign_def)
qed

lemma sqrt_25 [simp]: "sqrt 25 = 5"
  by (rule real_sqrt_unique) simp_all

text \<open>
  The rounded square roots of 3 and 27, and with them the scores of \<open>[1, 1, 1]\<close>
  against itself, \<open>3 / (sqrt 3 * sqrt 3)\<close>, and against \<open>[3, 3, 3]\<close>,
  \<open>9 / (sqrt 3 * sqrt 27)\<close>: the first is \<open>1 + 2 ^ -52\<close>, the second is 1.
\<close>

lemma sqrt_3_bounds:
  "15600926743107923 / 9007199254740992 < sqrt 3" "sqrt 3 < 15600926743107925 / 9007199254740992"
  by (rule real_less_rsqrt, simp add: power2_eq_square, rule real_less_lsqrt, simp_all add: power2_eq_square)

lemma small_overflowBound: "\<bar>x\<bar> \<le> 2 ^ 53 \<Longrightarrow> \<bar>x\<bar> < overflowBound"
proof -
  assume "\<bar>x\<bar> \<le> 2 ^ 53"
  moreover have "(2 :: real) ^ 53 < 2 ^ 1024" by (rule power_strict_increasing) simp_all
  ultimately show ?thesis by (simp add: overflowBound_def)
qed

lemma round_sqrt_3: "roundDouble (sqrt 3) = Num (7800463371553962 / 4503599627370496)"
proof -
  have "roundDouble (sqrt 3) = Num (real_of_int 7800463371553962 * 2 powr of_int (0 - 52))"
  proof (rule roundDouble_near)
    show "2 powr real_of_int 0 \<le> \<bar>sqrt 3\<bar>" by simp
    show "\<bar>sqrt 3\<bar> < 2 powr real_of_int (0 + 1)"
      using sqrt_3_bounds(2) by simp
    show "\<bar>sqrt 3 / 2 powr real_of_int (0 - 52) - real_of_int 7800463371553962\<bar> < 1 / 2"
      using sqrt_3_bounds by (simp add: powr_minus abs_if field_simps)
    show "\<bar>real_of_int 7800463371553962 * 2 powr real_of_int (0 - 52)\<bar> < overflowBound"
      by (rule small_overflowBound) (simp add: powr_minus field_simps)
  qed simp
  then show ?thesis by (simp add: powr_minus field_simps)
qed

lemma round_product:
  "roundDouble (7800463371553962 / 4503599627370496 * (7800463371553962 / 4503599627370496)) =
     Num (6755399441055743 / 2251799813685248)"
proof -
  let ?x = "7800463371553962 / 4503599627370496 * (7800463371553962 / 4503599627370496) :: real"
  have "roundDouble ?x = Num (real_of_int 6755399441055743 * 2 powr of_int (1 - 52))"
  proof (rule roundDouble_near)
    show "2 powr real_of_int 1 \<le> \<bar>?x\<bar>" by simp
    show "\<bar>?x\<bar> < 2 powr real_of_int (1 + 1)" by simp
    show "\<bar>?x / 2 powr real_of_int (1 - 52) - real_of_int 6755399441055743\<bar> < 1 / 2"
      by (simp add: powr_minus abs_if field_simps)
    show "\<bar>real_of_int 6755399441055743 * 2 powr real_of_int (1 - 52)\<bar> < overflowBound"
      by (rule small_overflowBound) (simp add: powr_minus field_simps)
  qed simp
  then show ?thesis by (simp add: powr_minus field_simps)
qed

lemma round_quotient:
  "roundDouble (3 / (6755399441055743 / 2251799813685248)) =
     Num (4503599627370497 / 4503599627370496)"
proof -
  let ?x = "3 / (6755399441055743 / 2251799813685248) :: real"
  have "roundDouble ?x = Num (real_of_int 4503599627370497 * 2 powr of_int (0 - 52))"
  proof (rule roundDouble_near)
    show "2 powr real_of_int 0 \<le> \<bar>?x\<bar>" by simp
    show "\<bar>?x\<bar> < 2 powr real_of_int (0 + 1)" by simp
    show "\<bar>?x / 2 powr real_of_int (0 - 52) - real_of_int 4503599627370497\<bar> < 1 / 2"
      by (simp add: powr_minus abs_if field_simps)
    show "\<bar>real_of_int 4503599627370497 * 2 powr real_of_int (0 - 52)\<bar> < overflowBound"
      by (rule small_overflowBound) (simp add: powr_minus field_simps)
  qed simp
  then show ?thesis by (simp add: powr_minus field_simps)
qed

lemma score_ones:
  "cosineSimilarity ieeeArithmetic [1, 1, 1] [1, 1, 1] = Num (4503599627370497 / 4503599627370496)"
proof -
  have sums: "fold (cosineStep ieeeArithmetic [1, 1, 1] [1, 1, 1]) [0..<length [1, 1, 1 :: real]]
      (Num 0, Num 0, Num 0) = (Num 3, Num 3, Num 3)"
    by (simp add: cosineStep_def element_def ieeeArithmetic_def upt_rec)
  have s: "fsqrt ieeeArithmetic (Num 3) = Num (7800463371553962 / 4503599627370496)"
    by (simp add: ieeeArithmetic_def round_sqrt_3)
  have p: "fmul ieeeArithmetic (Num (7800463371553962 / 4503599627370496))
      (Num (7800463371553962 / 4503599627370496)) = Num (6755399441055743 / 2251799813685248)"
    unfolding ieeeArithmetic_def
    by (simp only: arithmetic.simps numMul.simps roundNumber_simps round_product)
  have ne: "(6755399441055743 / 2251799813685248 :: real) \<noteq> 0" by simp
  have q: "fdiv ieeeArithmetic (Num 3) (Num (6755399441055743 / 2251799813685248)) =
      Num (4503599627370497 / 4503599627370496)"
    unfolding ieeeArithmetic_def
    by (simp only: arithmetic.simps numDiv.simps ne if_False roundNumber_simps round_quotient)
  show ?thesis
    unfolding cosineSimilarity_def sums by (simp only: prod.case s p q)
qed

lemma sqrt_27_bounds:
  "11700695057330943 / 2251799813685248 < sqrt 27" "sqrt 27 < 11700695057330945 / 2251799813685248"
  by (rule real_less_rsqrt, simp add: power2_eq_square, rule real_less_lsqrt, simp_all add: power2_eq_square)

lemma round_sqrt_27: "roundDouble (sqrt 27) = Num (5850347528665472 / 1125899906842624)"
proof -
  have "roundDouble (sqrt 27) = Num (real_of_int 5850347528665472 * 2 powr of_int (2 - 52))"
  proof (rule roundDouble_near)
    show "2 powr real_of_int 2 \<le> \<bar>sqrt 27\<bar>"
      using sqrt_27_bounds(1) by simp
    show "\<bar>sqrt 27\<bar> < 2 powr real_of_int (2 + 1)"
      using sqrt_27_bounds(2) by simp
    show "\<bar>sqrt 27 / 2 powr real_of_int (2 - 52) - real_of_int 5850347528665472\<bar> < 1 / 2"
      using sqrt_27_bounds by (simp add: powr_minus abs_if field_simps)
    show "\<bar>real_of_int 5850347528665472 * 2 powr real_of_int (2 - 52)\<bar> < overflowBound"
      by (rule small_overflowBound) (simp add: powr_minus field_simps)
  qed simp
  then show ?thesis by (simp add: powr_minus field_simps)
qed

lemma round_product_27:
  "roundDouble (7800463371553962 / 4503599627370496 * (5850347528665472 / 1125899906842624)) =
     Num 9"
proof -
  let ?x = "7800463371553962 / 4503599627370496 * (5850347528665472 / 1125899906842624) :: real"
  have "roundDouble ?x = Num (real_of_int 5066549580791808 * 2 powr of_int (3 - 52))"
  proof (rule roundDouble_near)
    show "2 powr real_of_int 3 \<le> \<bar>?x\<bar>" by simp
    show "\<bar>?x\<bar> < 2 powr real_of_int (3 + 1)" by simp
    show "\<bar>?x / 2 powr real_of_int (3 - 52) - real_of_int 5066549580791808\<bar> < 1 / 2"
      by (simp add: powr_minus abs_if field_simps)
    show "\<bar>real_of_int 5066549580791808 * 2 powr real_of_int (3 - 52)\<bar> < overflowBound"
      by (rule small_overflowBound) (simp add: powr_minus field_simps)
  qed simp
  then show ?thesis by (simp add: powr_minus field_simps)
qed

lemma score_threes:
  "cosineSimilarity ieeeArithmetic [1, 1, 1] [3, 3, 3] = Num 1"
proof -
  have sums: "fold (cosineStep ieeeArithmetic [1, 1, 1] [3, 3, 3]) [0..<length [1, 1, 1 :: real]]
      (Num 0, Num 0, Num 0) = (Num 9, Num 3, Num 27)"
    by (simp add: cosineStep_def element_def ieeeArithmetic_def upt_rec)
  have s: "fsqrt ieeeArithmetic (Num 3) = Num (7800463371553962 / 4503599627370496)"
    by (simp add: ieeeArithmetic_def round_sqrt_3)
  have t: "fsqrt ieeeArithmetic (Num 27) = Num (5850347528665472 / 1125899906842624)"
    by (simp add: ieeeArithmetic_def round_sqrt_27)
  have p: "fmul ieeeArithmetic (Num (7800463371553962 / 4503599627370496))
      (Num (5850347528665472 / 1125899906842624)) = Num 9"
    unfolding ieeeArithmetic_def
    by (simp only: arithmetic.simps numMul.simps roundNumber_simps round_product_27)
  have q: "fdiv ieeeArithmetic (Num 9) (Num 9) = Num 1"
    by (simp add: ieeeArithmetic_def)
  show ?thesis
    unfolding cosineSimilarity_def sums by (simp only: prod.case s t p q)
qed

lemma roundNearestEven_ge: "of_int k \<le> y \<Longrightarrow> k \<le> roundNearestEven y"
proof -
  assume "of_int k \<le> y"
  then have "k \<le> \<lfloor>y\<rfloor>" by (simp add: le_floor_iff)
  then show ?thesis by (simp add: roundNearestEven_def Let_def)
qed

lemma roundNearestEven_le: "y \<le> of_int k \<Longrightarrow> roundNearestEven y \<le> k"
proof (cases "y = of_int k")
  case True
  then show ?thesis by simp
next
  case False
  assume "y \<le> of_int k"
  with False have "y < of_int k" by simp
  then have "\<lfloor>y\<rfloor> < k" by (simp add: floor_less_iff)
  then show ?thesis by (simp add: roundNearestEven_def Let_def)
qed

text \<open>A number of magnitude \<open>2 ^ 1024\<close> or more overflows.\<close>

lemma roundDouble_overflow:
  assumes "overflowBound \<le> \<bar>x\<bar>"
  shows "roundDouble x = (if 0 < x then PosInf else NegInf)"
proof -
  define e where "e = \<lfloor>log 2 \<bar>x\<bar>\<rfloor>"
  have pos: "0 < \<bar>x\<bar>" using assms by (simp add: overflowBound_def)
  have "(2 :: real) powr 1024 \<le> \<bar>x\<bar>"
    using assms by (simp add: overflowBound_def)
  then have "1024 \<le> log 2 \<bar>x\<bar>" using pos by (simp add: le_log_iff)
  then have e1024: "1024 \<le> e" unfolding e_def by linarith
  have le: "2 powr of_int e \<le> \<bar>x\<bar>"
    using floor_log_eq_powr_iff [of "\<bar>x\<bar>" 2 e] pos by (simp add: e_def)
  have b: "binadeExponent x = e" using e1024 by (simp add: binadeExponent_def e_def)
  define u :: real where "u = 2 powr of_int (e - 52)"
  have u0: "0 < u" by (simp add: u_def)
  have split: "2 powr real_of_int e = 2 ^ 52 * u"
  proof -
    have "2 powr real_of_int e = 2 powr (52 + real_of_int (e - 52))" by simp
    also have "\<dots> = 2 powr 52 * 2 powr real_of_int (e - 52)" by (rule powr_add)
    finally show ?thesis by (simp add: u_def)
  qed
  have big: "2 ^ 52 \<le> \<bar>real_of_int (roundNearestEven (x / u))\<bar>"
  proof (cases "0 < x")
    case True
    with le split have "2 ^ 52 * u \<le> x" by simp
    with u0 have "real_of_int (2 ^ 52) \<le> x / u" by (simp add: pos_le_divide_eq)
    then have "2 ^ 52 \<le> roundNearestEven (x / u)" by (rule roundNearestEven_ge)
    then have "real_of_int (2 ^ 52) \<le> real_of_int (roundNearestEven (x / u))"
      by (simp only: of_int_le_iff)
    then show ?thesis by simp
  next
    case False
    with le split have "2 ^ 52 * u \<le> - x" by simp
    with u0 have "x / u \<le> real_of_int (- (2 ^ 52))" by (simp add: pos_divide_le_eq)
    then have "roundNearestEven (x / u) \<le> - (2 ^ 52)" by (rule roundNearestEven_le)
    then have "real_of_int (roundNearestEven (x / u)) \<le> real_of_int (- (2 ^ 52))"
      by (simp only: of_int_le_iff)
    then show ?thesis by simp
  qed
  have "overflowBound \<le> 2 powr real_of_int e"
  proof -
    have "(2 :: real) powr 1024 \<le> 2 powr real_of_int e"
      by (rule powr_mono) (use e1024 in simp_all)
    moreover have "overflowBound = 2 powr 1024" by (simp add: overflowBound_def)
    ultimately show ?thesis by (simp only:)
  qed
  also have "\<dots> = 2 ^ 52 * u" by (rule split)
  also have "\<dots> \<le> \<bar>real_of_int (roundNearestEven (x / u))\<bar> * u"
    using big u0 by (simp add: mult_right_mono)
  also have "\<dots> = \<bar>real_of_int (roundNearestEven (x / u)) * u\<bar>"
    using u0 by (simp add: abs_mult)
  finally have "overflowBound \<le> \<bar>real_of_int (roundNearestEven (x / u)) * u\<bar>" .
  moreover have "x \<noteq> 0" using pos by simp
  ultimately show ?thesis
    unfolding roundDouble_def b u_def [symmetric] by (simp add: Let_def)
qed

text \<open>A number of magnitude below \<open>2 ^ -1075\<close> underflows to zero.\<close>

lemma roundDouble_underflow:
  assumes "\<bar>x\<bar> < 2 powr (- 1075)"
  shows "roundDouble x = Num 0"
proof (cases "x = 0")
  case True
  then show ?thesis by simp
next
  case False
  then have pos: "0 < \<bar>x\<bar>" by simp
  from assms have "log 2 \<bar>x\<bar> < - 1075" using pos by (simp add: log_less_iff)
  then have "\<lfloor>log 2 \<bar>x\<bar>\<rfloor> \<le> - 1022" by linarith
  then have b: "binadeExponent x = - 1022" by (simp add: binadeExponent_def)
  define u :: real where "u = 2 powr of_int (- 1022 - 52)"
  have u0: "0 < u" by (simp add: u_def)
  have "u = 2 * 2 powr (- 1075)"
  proof -
    have "u = 2 powr (1 + (- 1075))" by (simp add: u_def)
    also have "\<dots> = 2 powr 1 * 2 powr (- 1075)" by (rule powr_add)
    finally show ?thesis by simp
  qed
  with assms have "\<bar>x\<bar> < u / 2" by simp
  with u0 have "\<bar>x / u - of_int 0\<bar> < 1 / 2" by (simp add: pos_divide_less_eq)
  then have "roundNearestEven (x / u) = 0" by (rule roundNearestEven_near)
  moreover have "0 < overflowBound" by (simp add: overflowBound_def)
  ultimately show ?thesis
    using False unfolding roundDouble_def b u_def [symmetric] by (simp add: Let_def)
qed

text \<open>
  Scores of vectors whose squares leave the range of the doubles: the sums are infinite
  or zero, and the score is \<open>Infinity / Infinity\<close> or \<open>0 / 0\<close>.
\<close>

lemma score_overflow:
  "cosineSimilarity ieeeArithmetic [2 ^ 600] [2 ^ 600] = NaN"
proof -
  have "overflowBound \<le> \<bar>(2 :: real) ^ 600 * 2 ^ 600\<bar>"
  proof -
    have "(2 :: real) ^ 600 * 2 ^ 600 = 2 ^ 1200" by (simp flip: power_add)
    moreover have "(2 :: real) ^ 1024 \<le> 2 ^ 1200" by (rule power_increasing) simp_all
    ultimately show ?thesis by (simp add: overflowBound_def)
  qed
  from roundDouble_overflow [OF this]
  have r: "roundDouble (2 ^ 600 * 2 ^ 600) = PosInf" by simp
  have m: "fmul ieeeArithmetic (Num (2 ^ 600)) (Num (2 ^ 600)) = PosInf"
    unfolding ieeeArithmetic_def
    by (simp only: arithmetic.simps numMul.simps roundNumber_simps r)
  have a: "fadd ieeeArithmetic (Num 0) PosInf = PosInf"
    and s: "fsqrt ieeeArithmetic PosInf = PosInf"
    and p: "fmul ieeeArithmetic PosInf PosInf = PosInf"
    and d: "fdiv ieeeArithmetic PosInf PosInf = NaN"
    by (simp_all add: ieeeArithmetic_def)
  have e: "element [2 ^ 600] 0 = Num (2 ^ 600)"
    unfolding element_def by (simp only: list.size nth_Cons_0) simp
  have sums: "fold (cosineStep ieeeArithmetic [2 ^ 600] [2 ^ 600]) [0..<length [2 ^ 600 :: real]]
      (Num 0, Num 0, Num 0) = (PosInf, PosInf, PosInf)"
  proof -
    have "[0..<length [2 ^ 600 :: real]] = [0]" by simp
    then show ?thesis
      by (simp only: fold_simps cosineStep_def prod.case e m a comp_apply id_apply)
  qed
  show ?thesis
    unfolding cosineSimilarity_def sums by (simp only: prod.case s p d)
qed

lemma score_underflow:
  "cosineSimilarity ieeeArithmetic [1 / 2 ^ 600] [1 / 2 ^ 600] = NaN"
proof -
  have "\<bar>1 / 2 ^ 600 * (1 / 2 ^ 600) :: real\<bar> < 2 powr (- 1075)"
  proof -
    have "(1 / 2 ^ 600 * (1 / 2 ^ 600) :: real) = 2 powr (- 1200)"
      by (simp add: powr_minus field_simps flip: power_add)
    moreover have "(2 :: real) powr (- 1200) < 2 powr (- 1075)" by (rule powr_less_mono) simp_all
    ultimately show ?thesis by (simp only: abs_of_nonneg [OF powr_ge_zero])
  qed
  then have r: "roundDouble (1 / 2 ^ 600 * (1 / 2 ^ 600)) = Num 0" by (rule roundDouble_underflow)
  have m: "fmul ieeeArithmetic (Num (1 / 2 ^ 600)) (Num (1 / 2 ^ 600)) = Num 0"
    unfolding ieeeArithmetic_def
    by (simp only: arithmetic.simps numMul.simps roundNumber_simps r)
  have a: "fadd ieeeArithmetic (Num 0) (Num 0) = Num 0"
    and s: "fsqrt ieeeArithmetic (Num 0) = Num 0"
    and p: "fmul ieeeArithmetic (Num 0) (Num 0) = Num 0"
    and d: "fdiv ieeeArithmetic (Num 0) (Num 0) = NaN"
    by (simp_all add: ieeeArithmetic_def infinityOfSign_def)
  have e: "element [1 / 2 ^ 600] 0 = Num (1 / 2 ^ 600)"
    unfolding element_def by (simp only: list.size nth_Cons_0) simp
  have sums: "fold (cosineStep ieeeArithmetic [1 / 2 ^ 600] [1 / 2 ^ 600])
      [0..<length [1 / 2 ^ 600 :: real]] (Num 0, Num 0, Num 0) = (Num 0, Num 0, Num 0)"
  proof -
    have "[0..<length [1 / 2 ^ 600 :: real]] = [0]" by simp
    then show ?thesis
      by (simp only: fold_simps cosineStep_def prod.case e m a comp_apply id_apply)
  qed
  show ?thesis
    unfolding cosineSimilarity_def sums by (simp only: prod.case s p d)
qed

text \<open>
  For scores that are not NaN the comparator orders as \<open>>=\<close> does, and the sort of the
  code is the stable sort by the rank of the score.
\<close>

lemma comparator_rank:
  "a \<noteq> NaN \<Longrightarrow> b \<noteq> NaN \<Longrightarrow>
   (comparatorSign (numSub b a) \<le> 0) = (scoreRank a \<le> scoreRank b)"
  by (cases a; cases b) (simp_all add: numSub_def comparatorSign_def scoreRank_def)

lemma numGe_rank:
  "a \<noteq> NaN \<Longrightarrow> b \<noteq> NaN \<Longrightarrow> numGe a b = (scoreRank a \<le> scoreRank b)"
  by (cases a; cases b) (simp_all add: scoreRank_def)

lemma scoreRank_inject: "scoreRank a = scoreRank b \<longleftrightarrow> a = b"
  by (cases a; cases b) (simp_all add: scoreRank_def)

lemma insertSorted_insort_key:
  assumes "\<forall>r\<in>set (x # ys). similarity_score r \<noteq> NaN"
  shows "insertSorted compareScores x ys =
           insort_key (\<lambda>r. scoreRank (similarity_score r)) x ys"
  using assms
proof (induction ys)
  case Nil
  show ?case by simp
next
  case (Cons y ys)
  then have "similarity_score x \<noteq> NaN" "similarity_score y \<noteq> NaN" by auto
  from comparator_rank [OF this] Cons show ?case
    by (simp add: compareScores_def)
qed

lemma sortBy_sort_key:
  assumes "\<forall>r\<in>set xs. similarity_score r \<noteq> NaN"
  shows "sortBy compareScores xs = sort_key (\<lambda>r. scoreRank (similarity_score r)) xs"
  using assms
proof (induction xs)
  case Nil
  show ?case by (simp add: sortBy_def)
next
  case (Cons x xs)
  then have IH: "sortBy compareScores xs = sort_key (\<lambda>r. scoreRank (similarity_score r)) xs"
    by simp
  have "\<forall>r\<in>set (x # sort_key (\<lambda>r. scoreRank (similarity_score r)) xs).
          similarity_score r \<noteq> NaN"
    using Cons.prems by simp
  from insertSorted_insort_key [OF this] IH show ?case
    by (simp add: sortBy_def)
qed

lemma length_insertSorted [simp]: "length (insertSorted cmp x ys) = Suc (length ys)"
  by (induction ys) auto

lemma length_sortBy [simp]: "length (sortBy cmp xs) = length xs"
  by (induction xs) (auto simp: sortBy_def)

lemma set_insertSorted [simp]: "set (insertSorted cmp x ys) = insert x (set ys)"
  by (induction ys) auto

lemma set_sortBy [simp]: "set (sortBy cmp xs) = set xs"
  by (induction xs) (auto simp: sortBy_def)

lemma sorted_scores:
  assumes "\<forall>r\<in>set xs. similarity_score r \<noteq> NaN"
    and "sorted (map (\<lambda>r. scoreRank (similarity_score r)) xs)"
  shows "sorted_wrt numGe (map similarity_score xs)"
  using assms
proof (induction xs)
  case Nil
  show ?case by simp
next
  case (Cons x xs)
  have "\<forall>r\<in>set xs. numGe (similarity_score x) (similarity_score r)"
  proof
    fix r assume r: "r \<in> set xs"
    with Cons.prems(1) have "similarity_score x \<noteq> NaN" "similarity_score r \<noteq> NaN" by auto
    from numGe_rank [OF this] Cons.prems(2) r
    show "numGe (similarity_score x) (similarity_score r)" by simp
  qed
  with Cons show ?case by simp
qed

section \<open>Properties of the search\<close>

lemma newEvents_append [simp]: "events w' = events w @ evs \<Longrightarrow> newEvents w w' = evs"
  by (simp add: newEvents_def)

lemma generateEmbedding_world:
  assumes "generateEmbedding pipeline text config w = (r, w')"
  shows "files w' = files w \<and> directories w' = directories w \<and>
         events w' = events w @ [GenerateEmbedding text (\<not> isl r)]"
  using assms
  by (auto simp: generateEmbedding_def emit_def Let_def split: option.splits)

lemma searchVectorStore_embedding_fails:
  assumes "fst (generateEmbedding pipeline queryText config w) = Inl e"
  shows "fst (searchVectorStore ar pipeline projectPath queryText ctx config w) = [] \<and>
         files (snd (searchVectorStore ar pipeline projectPath queryText ctx config w)) = files w \<and>
         events (snd (searchVectorStore ar pipeline projectPath queryText ctx config w)) =
           events w @ [GenerateEmbedding queryText False, ConsoleError ErrorSearching]"
proof -
  obtain r w1 where g: "generateEmbedding pipeline queryText config w = (r, w1)"
    by (cases "generateEmbedding pipeline queryText config w")
  with assms have r: "r = Inl e" by simp
  from generateEmbedding_world [OF g] r show ?thesis
    by (simp add: searchVectorStore_def g emit_def)
qed

lemma searchVectorStore_absent:
  assumes "files w (vectorStorePath projectPath) = None"
  shows "fst (searchVectorStore ar pipeline projectPath queryText ctx config w) = [] \<and>
         files (snd (searchVectorStore ar pipeline projectPath queryText ctx config w)) = files w \<and>
         \<not> list_ex isReadJson
             (newEvents w (snd (searchVectorStore ar pipeline projectPath queryText ctx config w)))"
proof -
  obtain r w1 where g: "generateEmbedding pipeline queryText config w = (r, w1)"
    by (cases "generateEmbedding pipeline queryText config w")
  from generateEmbedding_world [OF g] assms show ?thesis
    by (cases r) (simp_all add: searchVectorStore_def g emit_def pathExists_def)
qed

lemma searchVectorStore_unparsable:
  assumes "files w (vectorStorePath projectPath) = Some Unparsable"
  shows "fst (searchVectorStore ar pipeline projectPath queryText ctx config w) = [] \<and>
         files (snd (searchVectorStore ar pipeline projectPath queryText ctx config w)) = files w \<and>
         last (events (snd (searchVectorStore ar pipeline projectPath queryText ctx config w))) =
           ConsoleError ErrorSearching"
proof -
  obtain r w1 where g: "generateEmbedding pipeline queryText config w = (r, w1)"
    by (cases "generateEmbedding pipeline queryText config w")
  from generateEmbedding_world [OF g] assms show ?thesis
    by (cases r) (simp_all add: searchVectorStore_def g emit_def pathExists_def readJson_def)
qed

lemma searchVectorStore_ranks:
  assumes "fst (generateEmbedding pipeline queryText config w) = Inr q"
    and "files w (vectorStorePath projectPath) = Some (StoreFile store)"
  shows "fst (searchVectorStore ar pipeline projectPath queryText ctx config w) =
           rankEntries ar q ctx (entries store)"
proof -
  obtain r w1 where g: "generateEmbedding pipeline queryText config w = (r, w1)"
    by (cases "generateEmbedding pipeline queryText config w")
  with assms have r: "r = Inr q" by simp
  from generateEmbedding_world [OF g] r assms(2) show ?thesis
    by (simp add: searchVectorStore_def g emit_def pathExists_def readJson_def)
qed

lemma searchDependencyDocs_response:
  "fst (searchDependencyDocs ar pipeline getConfig params w) =
     \<lparr>results = fst (searchVectorStore ar pipeline (project_path params) (query params)
                   (repository_context params) (Some (getConfig (project_path params))) w),
      error = None\<rparr>"
  by (simp add: searchDependencyDocs_def split: prod.splits)

lemma length_rankEntries:
  "length (rankEntries ar q ctx es) =
     min 5 (length (filterByContext ctx (map (scoreEntry ar q) es)))"
  by (simp add: rankEntries_def min.commute)

section \<open>Properties of indexing\<close>

lemma embeddingRun_Nil [simp]: "embeddingRun True []"
  by (simp add: embeddingRun_def)

lemma embeddingRun_append:
  "embeddingRun True xs \<Longrightarrow> embeddingRun ok ys \<Longrightarrow> embeddingRun ok (xs @ ys)"
  by (auto simp: embeddingRun_def butlast_append)

lemma embeddingRun_single: "embeddingRun ok [GenerateEmbedding t ok]"
  by (simp add: embeddingRun_def)

lemma indexChunks_run:
  assumes "indexChunks pipeline config dep repo doc chunks (es, w) = (r, w')"
  shows "files w' = files w \<and>
         (\<exists>evs. events w' = events w @ evs \<and> embeddingRun (\<not> isl r) evs)"
  using assms
proof (induction chunks arbitrary: es w)
  case Nil
  then show ?case by auto
next
  case (Cons c chunks)
  show ?case
  proof (cases "trim c = []")
    case True
    with Cons show ?thesis by simp
  next
    case False
    obtain r1 w1 where g: "generateEmbedding pipeline c config w = (r1, w1)"
      by (cases "generateEmbedding pipeline c config w")
    from generateEmbedding_world [OF g]
    have w1: "files w1 = files w" "events w1 = events w @ [GenerateEmbedding c (\<not> isl r1)]"
      by simp_all
    show ?thesis
    proof (cases r1)
      case (Inl e)
      with False g Cons.prems have "r = Inl e" "w' = w1" by simp_all
      with w1 Inl show ?thesis
        using embeddingRun_single [of False c] by auto
    next
      case (Inr v)
      with False g Cons.prems obtain es' where
        "indexChunks pipeline config dep repo doc chunks (es', w1) = (r, w')" by auto
      from Cons.IH [OF this] obtain evs where
        "files w' = files w1" "events w' = events w1 @ evs" "embeddingRun (\<not> isl r) evs" by auto
      with w1 Inr show ?thesis
        using embeddingRun_append [OF embeddingRun_single [of True c], of "\<not> isl r" evs] by auto
    qed
  qed
qed

lemma indexDocuments_run:
  assumes "indexDocuments pipeline config dep repo docs (es, w) = (r, w')"
  shows "files w' = files w \<and>
         (\<exists>evs. events w' = events w @ evs \<and> embeddingRun (\<not> isl r) evs)"
  using assms
proof (induction docs arbitrary: es w)
  case Nil
  then show ?case by auto
next
  case (Cons d docs)
  obtain r1 w1 where c: "indexChunks pipeline config dep repo d (splitIntoChunks d 800 8000) (es, w) = (r1, w1)"
    by (cases "indexChunks pipeline config dep repo d (splitIntoChunks d 800 8000) (es, w)")
  from indexChunks_run [OF c] obtain evs1 where
    w1: "files w1 = files w" "events w1 = events w @ evs1" "embeddingRun (\<not> isl r1) evs1" by auto
  show ?case
  proof (cases r1)
    case (Inl e)
    with c Cons.prems have "r = Inl e" "w' = w1" by simp_all
    with w1 Inl show ?thesis by auto
  next
    case (Inr es')
    with c Cons.prems have "indexDocuments pipeline config dep repo docs (es', w1) = (r, w')"
      by simp
    from Cons.IH [OF this] obtain evs where
      "files w' = files w1" "events w' = events w1 @ evs" "embeddingRun (\<not> isl r) evs" by auto
    with w1 Inr show ?thesis
      using embeddingRun_append [of evs1 "\<not> isl r" evs] by auto
  qed
qed

lemma indexBody_run:
  assumes "indexBody pipeline projectPath dep repo docs config w = (r, w')"
  shows "files w' = files w \<and>
         (\<exists>pre evs. events w' = events w @ pre @ evs \<and> list_all isPreparation pre \<and>
            (embeddingRun (\<not> isl r) evs \<or> (isl r \<and> evs = [])))"
proof (cases "files w (vectorStorePath projectPath)")
  case None
  with assms have "indexDocuments pipeline config dep repo docs ([],
      emit (PathExists (vectorStorePath projectPath))
        (ensureDir (pathJoin projectPath (ascii ''.dependency-context'')) w)) = (r, w')"
    by (simp add: indexBody_def pathExists_def ensureDir_def emit_def)
  from indexDocuments_run [OF this] obtain evs where
    "files w' = files w" 
    "events w' = events w @ [EnsureDir (pathJoin projectPath (ascii ''.dependency-context'')),
        PathExists (vectorStorePath projectPath)] @ evs"
    "embeddingRun (\<not> isl r) evs"
    by (auto simp: emit_def ensureDir_def)
  then show ?thesis by (intro conjI exI [of _ "[EnsureDir (pathJoin projectPath (ascii ''.dependency-context'')),
        PathExists (vectorStorePath projectPath)]"] exI [of _ evs]) simp_all
next
  case (Some content)
  show ?thesis
  proof (cases content)
    case Unparsable
    with Some assms have "r = Inl ReadJsonError"
      "w' = emit (ReadJson (vectorStorePath projectPath)) (emit (PathExists (vectorStorePath projectPath))
        (ensureDir (pathJoin projectPath (ascii ''.dependency-context'')) w))"
      by (simp_all add: indexBody_def pathExists_def readJson_def ensureDir_def emit_def)
    then show ?thesis
      by (intro conjI exI [of _ "[EnsureDir (pathJoin projectPath (ascii ''.dependency-context'')),
        PathExists (vectorStorePath projectPath), ReadJson (vectorStorePath projectPath)]"] exI [of _ "[]"])
         (simp_all add: emit_def ensureDir_def)
  next
    case (StoreFile store)
    with Some assms have "indexDocuments pipeline config dep repo docs (entries store,
      emit (ReadJson (vectorStorePath projectPath)) (emit (PathExists (vectorStorePath projectPath))
        (ensureDir (pathJoin projectPath (ascii ''.dependency-context'')) w))) = (r, w')"
      by (simp add: indexBody_def pathExists_def readJson_def ensureDir_def emit_def)
    from indexDocuments_run [OF this] obtain evs where
      "files w' = files w" 
      "events w' = events w @ [EnsureDir (pathJoin projectPath (ascii ''.dependency-context'')),
        PathExists (vectorStorePath projectPath), ReadJson (vectorStorePath projectPath)] @ evs"
      "embeddingRun (\<not> isl r) evs"
      by (auto simp: emit_def ensureDir_def)
    then show ?thesis by (intro conjI exI [of _ "[EnsureDir (pathJoin projectPath (ascii ''.dependency-context'')),
        PathExists (vectorStorePath projectPath), ReadJson (vectorStorePath projectPath)]"] exI [of _ evs]) simp_all
  qed
qed

lemma indexDocumentation_run:
  assumes "indexDocumentation pipeline projectPath dep repo docs config w = (r, w')"
  shows "\<exists>pre evs. list_all isPreparation pre \<and>
           (r = Inr () \<and> embeddingRun True evs \<and>
              newEvents w w' = pre @ evs @ [WriteJson (vectorStorePath projectPath)] \<and>
              (\<exists>es. files w' = (files w)(vectorStorePath projectPath \<mapsto> StoreFile \<lparr>entries = es\<rparr>))
            \<or> isl r \<and> (embeddingRun False evs \<or> evs = []) \<and>
              newEvents w w' = pre @ evs @ [ConsoleError ErrorIndexing] \<and> files w' = files w)"
proof -
  obtain r1 w1 where b: "indexBody pipeline projectPath dep repo docs config w = (r1, w1)"
    by (cases "indexBody pipeline projectPath dep repo docs config w")
  from indexBody_run [OF b] obtain pre evs where
    run: "files w1 = files w" "events w1 = events w @ pre @ evs" "list_all isPreparation pre"
      "embeddingRun (\<not> isl r1) evs \<or> (isl r1 \<and> evs = [])" by auto
  show ?thesis
  proof (cases r1)
    case (Inl e)
    with b assms have "r = Inl e" "w' = emit (ConsoleError ErrorIndexing) w1"
      by (simp_all add: indexDocumentation_def)
    with run Inl show ?thesis
      by (intro exI [of _ pre] exI [of _ evs]) (auto simp: emit_def newEvents_def)
  next
    case (Inr es)
    with b assms have "r = Inr ()" "w' = writeJson (vectorStorePath projectPath) \<lparr>entries = es\<rparr> w1"
      by (simp_all add: indexDocumentation_def)
    with run Inr show ?thesis
      by (intro exI [of _ pre] exI [of _ evs]) (auto simp: emit_def writeJson_def newEvents_def)
  qed
qed

lemma list_all_not_ex: "list_all P xs \<Longrightarrow> (\<And>x. P x \<Longrightarrow> \<not> Q x) \<Longrightarrow> \<not> list_ex Q xs"
  by (auto simp: list_all_iff list_ex_iff)

lemma preparation_no_failure: "list_all isPreparation pre \<Longrightarrow> \<not> list_ex isEmbeddingFailure pre"
  by (rule list_all_not_ex, assumption) (case_tac x, simp_all)

lemma preparation_no_write: "list_all isPreparation pre \<Longrightarrow> \<not> list_ex isWriteJson pre"
  by (rule list_all_not_ex, assumption) (case_tac x, simp_all)

lemma embedded_no_failure: "list_all isEmbedded evs \<Longrightarrow> \<not> list_ex isEmbeddingFailure evs"
  by (rule list_all_not_ex, assumption) (case_tac x, simp_all)

lemma embedded_no_write: "list_all isEmbedded evs \<Longrightarrow> \<not> list_ex isWriteJson evs"
  by (rule list_all_not_ex, assumption) (case_tac x, simp_all)

lemma list_ex_butlast_last:
  "xs \<noteq> [] \<Longrightarrow> list_ex P xs = (list_ex P (butlast xs) \<or> P (last xs))"
  by (induction xs) auto

lemma failure_no_write: "isEmbeddingFailure ev \<Longrightarrow> \<not> isWriteJson ev"
  by (cases ev) simp_all

lemma embeddingRun_no_write: "embeddingRun ok evs \<Longrightarrow> \<not> list_ex isWriteJson evs"
proof (cases ok)
  case True
  assume "embeddingRun ok evs"
  with True show ?thesis by (simp add: embeddingRun_def embedded_no_write)
next
  case False
  assume "embeddingRun ok evs"
  with False have ne: "evs \<noteq> []" and a: "list_all isEmbedded (butlast evs)"
    and l: "isEmbeddingFailure (last evs)" by (simp_all add: embeddingRun_def)
  from ne have "list_ex isWriteJson evs = (list_ex isWriteJson (butlast evs) \<or> isWriteJson (last evs))"
    by (rule list_ex_butlast_last)
  with embedded_no_write [OF a] failure_no_write [OF l] show ?thesis by simp
qed

text \<open>
  A successful run appends to the entries of the store, in the order of the documents,
  one entry for each chunk that is not blank, and writes them to the store file.
\<close>

lemma indexChunks_appends:
  assumes "indexChunks pipeline config dep repo doc chunks (es, w) = (Inr es', w')"
  shows "\<exists>new. es' = es @ new \<and>
           map chunk new = filter (\<lambda>c. trim c \<noteq> []) chunks \<and>
           list_all (\<lambda>e. metadata e =
             \<lparr>repository = url repo, file' = path doc, dependency = name dep\<rparr>) new"
  using assms
proof (induction chunks arbitrary: es w)
  case Nil
  then show ?case by simp
next
  case (Cons c chunks)
  show ?case
  proof (cases "trim c = []")
    case True
    with Cons show ?thesis by simp
  next
    case False
    obtain r1 w1 where g: "generateEmbedding pipeline c config w = (r1, w1)"
      by (cases "generateEmbedding pipeline c config w")
    with False Cons.prems obtain v where
      rest: "indexChunks pipeline config dep repo doc chunks
         (es @ [\<lparr>chunk = c, embedding = v,
                  metadata = \<lparr>repository = url repo, file' = path doc,
                               dependency = name dep\<rparr>\<rparr>], w1) = (Inr es', w')"
      by (cases r1) auto
    from Cons.IH [OF rest] obtain new where
      "es' = (es @ [\<lparr>chunk = c, embedding = v,
                  metadata = \<lparr>repository = url repo, file' = path doc,
                               dependency = name dep\<rparr>\<rparr>]) @ new"
      "map chunk new = filter (\<lambda>c. trim c \<noteq> []) chunks"
      "list_all (\<lambda>e. metadata e =
             \<lparr>repository = url repo, file' = path doc, dependency = name dep\<rparr>) new"
      by blast
    with False show ?thesis
      by (intro exI [of _ "\<lparr>chunk = c, embedding = v,
                  metadata = \<lparr>repository = url repo, file' = path doc,
                               dependency = name dep\<rparr>\<rparr> # new"]) simp
  qed
qed

lemma indexDocuments_appends:
  assumes "indexDocuments pipeline config dep repo docs (es, w) = (Inr es', w')"
  shows "\<exists>new. es' = es @ new \<and>
           map chunk new =
             concat (map (\<lambda>d. filter (\<lambda>c. trim c \<noteq> []) (splitIntoChunks d 800 8000)) docs)"
  using assms
proof (induction docs arbitrary: es w)
  case Nil
  then show ?case by simp
next
  case (Cons d docs)
  obtain r1 w1 where c: "indexChunks pipeline config dep repo d (splitIntoChunks d 800 8000) (es, w) = (r1, w1)"
    by (cases "indexChunks pipeline config dep repo d (splitIntoChunks d 800 8000) (es, w)")
  with Cons.prems obtain es1 where r1: "r1 = Inr es1"
    and rest: "indexDocuments pipeline config dep repo docs (es1, w1) = (Inr es', w')"
    by (cases r1) auto
  from indexChunks_appends [OF c [unfolded r1]] obtain new1 where
    n1: "es1 = es @ new1"
      "map chunk new1 = filter (\<lambda>c. trim c \<noteq> []) (splitIntoChunks d 800 8000)" by blast
  from Cons.IH [OF rest] obtain new2 where
    n2: "es' = es1 @ new2"
      "map chunk new2 =
         concat (map (\<lambda>d. filter (\<lambda>c. trim c \<noteq> []) (splitIntoChunks d 800 8000)) docs)"
    by blast
  from n1 n2 show ?case by (intro exI [of _ "new1 @ new2"]) simp
qed

lemma indexDocumentation_appends:
  assumes "indexDocumentation pipeline projectPath dep repo docs config w = (Inr (), w')"
  shows "\<exists>new. files w' = (files w)(vectorStorePath projectPath \<mapsto>
             StoreFile \<lparr>entries = storedEntries w (vectorStorePath projectPath) @ new\<rparr>) \<and>
           map chunk new =
             concat (map (\<lambda>d. filter (\<lambda>c. trim c \<noteq> []) (splitIntoChunks d 800 8000)) docs)"
proof -
  let ?p = "vectorStorePath projectPath"
  obtain r1 w1 where b: "indexBody pipeline projectPath dep repo docs config w = (r1, w1)"
    by (cases "indexBody pipeline projectPath dep repo docs config w")
  with assms obtain es' where r1: "r1 = Inr es'"
    and w': "w' = writeJson ?p \<lparr>entries = es'\<rparr> w1"
    by (cases r1) (auto simp: indexDocumentation_def)
  from indexBody_run [OF b] have f: "files w1 = files w" by simp
  have "\<exists>w0. indexDocuments pipeline config dep repo docs (storedEntries w ?p, w0) = (Inr es', w1)"
  proof (cases "files w ?p")
    case None
    with b r1 show ?thesis
      by (auto simp: indexBody_def pathExists_def storedEntries_def Let_def emit_def
          ensureDir_def)
  next
    case (Some fc)
    with b r1 show ?thesis
      by (cases fc) (auto simp: indexBody_def pathExists_def readJson_def storedEntries_def
          Let_def emit_def ensureDir_def)
  qed
  then obtain w0 where
    "indexDocuments pipeline config dep repo docs (storedEntries w ?p, w0) = (Inr es', w1)" ..
  from indexDocuments_appends [OF this] obtain new where
    "es' = storedEntries w ?p @ new"
    "map chunk new =
       concat (map (\<lambda>d. filter (\<lambda>c. trim c \<noteq> []) (splitIntoChunks d 800 8000)) docs)"
    by blast
  with f w' show ?thesis
    by (intro exI [of _ new]) (simp add: writeJson_def emit_def)
qed

text \<open>
  The entries that a successful run appends are the records of its chunks, each with the
  embedding that the model of the run gives.
\<close>

lemma generateEmbedding_generator:
  assumes "generateEmbedding pipeline c config w = (Inr v, w')"
  shows "embeddingGenerator pipeline config w' = embeddingGenerator pipeline config w \<and>
         Option.bind (embeddingGenerator pipeline config w) (\<lambda>g. g c) = Some v"
  using assms
  by (auto simp: generateEmbedding_def embeddingGenerator_def emit_def Let_def
      split: option.splits)

lemma indexChunks_records:
  assumes "indexChunks pipeline config dep repo doc chunks (es, w) = (Inr es', w')"
  shows "embeddingGenerator pipeline config w' = embeddingGenerator pipeline config w \<and>
         (\<exists>new. es' = es @ new \<and>
            list_all2 (isRecordOf (embeddingGenerator pipeline config w) dep repo)
              (map (Pair doc) (filter (\<lambda>c. trim c \<noteq> []) chunks)) new)"
  using assms
proof (induction chunks arbitrary: es w)
  case Nil
  then show ?case by simp
next
  case (Cons c chunks)
  show ?case
  proof (cases "trim c = []")
    case True
    with Cons show ?thesis by simp
  next
    case False
    let ?e = "\<lambda>v. \<lparr>chunk = c, embedding = v,
                  metadata = \<lparr>repository = url repo, file' = path doc,
                               dependency = name dep\<rparr>\<rparr>"
    obtain r1 w1 where g: "generateEmbedding pipeline c config w = (r1, w1)"
      by (cases "generateEmbedding pipeline c config w")
    with False Cons.prems obtain v where r1: "r1 = Inr v" and
      rest: "indexChunks pipeline config dep repo doc chunks (es @ [?e v], w1) = (Inr es', w')"
      by (cases r1) auto
    from generateEmbedding_generator [OF g [unfolded r1]] have
      gen: "embeddingGenerator pipeline config w1 = embeddingGenerator pipeline config w" and
      v: "Option.bind (embeddingGenerator pipeline config w) (\<lambda>g. g c) = Some v"
      by simp_all
    from Cons.IH [OF rest] gen obtain new where
      w': "embeddingGenerator pipeline config w' = embeddingGenerator pipeline config w" and
      es': "es' = (es @ [?e v]) @ new" and
      new: "list_all2 (isRecordOf (embeddingGenerator pipeline config w) dep repo)
              (map (Pair doc) (filter (\<lambda>c. trim c \<noteq> []) chunks)) new"
      by auto
    have "isRecordOf (embeddingGenerator pipeline config w) dep repo (doc, c) (?e v)"
      by (simp add: isRecordOf_def v)
    with False w' es' new show ?thesis
      by (intro conjI exI [of _ "?e v # new"]) simp_all
  qed
qed

lemma indexDocuments_records:
  assumes "indexDocuments pipeline config dep repo docs (es, w) = (Inr es', w')"
  shows "\<exists>new. es' = es @ new \<and>
           list_all2 (isRecordOf (embeddingGenerator pipeline config w) dep repo)
             (indexJobs docs) new"
  using assms
proof (induction docs arbitrary: es w)
  case Nil
  then show ?case by (simp add: indexJobs_def)
next
  case (Cons d docs)
  obtain r1 w1 where
    c: "indexChunks pipeline config dep repo d (splitIntoChunks d 800 8000) (es, w) = (r1, w1)"
    by (cases "indexChunks pipeline config dep repo d (splitIntoChunks d 800 8000) (es, w)")
  with Cons.prems obtain es1 where r1: "r1 = Inr es1"
    and rest: "indexDocuments pipeline config dep repo docs (es1, w1) = (Inr es', w')"
    by (cases r1) auto
  from indexChunks_records [OF c [unfolded r1]] obtain new1 where
    gen: "embeddingGenerator pipeline config w1 = embeddingGenerator pipeline config w" and
    n1: "es1 = es @ new1"
      "list_all2 (isRecordOf (embeddingGenerator pipeline config w) dep repo)
         (map (Pair d) (filter (\<lambda>c. trim c \<noteq> []) (splitIntoChunks d 800 8000))) new1"
    by blast
  from Cons.IH [OF rest] gen obtain new2 where
    n2: "es' = es1 @ new2"
      "list_all2 (isRecordOf (embeddingGenerator pipeline config w) dep repo)
         (indexJobs docs) new2"
    by auto
  from n1(2) n2(2) have
    "list_all2 (isRecordOf (embeddingGenerator pipeline config w) dep repo)
       (indexJobs (d # docs)) (new1 @ new2)"
    by (simp add: indexJobs_def list_all2_appendI)
  with n1 n2 show ?case by (intro exI [of _ "new1 @ new2"]) simp
qed

lemma indexDocumentation_records:
  assumes "indexDocumentation pipeline projectPath dep repo docs config w = (Inr (), w')"
  shows "\<exists>new. files w' = (files w)(vectorStorePath projectPath \<mapsto>
             StoreFile \<lparr>entries = storedEntries w (vectorStorePath projectPath) @ new\<rparr>) \<and>
           list_all2 (isRecordOf (embeddingGenerator pipeline config w) dep repo)
             (indexJobs docs) new"
proof -
  let ?p = "vectorStorePath projectPath"
  obtain r1 w1 where b: "indexBody pipeline projectPath dep repo docs config w = (r1, w1)"
    by (cases "indexBody pipeline projectPath dep repo docs config w")
  with assms obtain es' where r1: "r1 = Inr es'"
    and w': "w' = writeJson ?p \<lparr>entries = es'\<rparr> w1"
    by (cases r1) (auto simp: indexDocumentation_def)
  from indexBody_run [OF b] have f: "files w1 = files w" by simp
  let ?w2 = "snd (pathExists ?p (ensureDir (pathJoin projectPath (ascii ''.dependency-context'')) w))"
  let ?w3 = "snd (readJson ?p ?w2)"
  have cache: "embeddingGeneratorCache ?w2 = embeddingGeneratorCache w"
    "embeddingGeneratorCache ?w3 = embeddingGeneratorCache w"
    by (simp_all add: pathExists_def ensureDir_def readJson_def emit_def
        split: option.splits fileContent.splits)
  have "\<exists>w0. embeddingGeneratorCache w0 = embeddingGeneratorCache w \<and>
          indexDocuments pipeline config dep repo docs (storedEntries w ?p, w0) = (Inr es', w1)"
  proof (cases "files w ?p")
    case None
    with b r1 have
      "indexDocuments pipeline config dep repo docs (storedEntries w ?p, ?w2) = (Inr es', w1)"
      by (simp add: indexBody_def pathExists_def storedEntries_def Let_def emit_def
          ensureDir_def)
    with cache(1) show ?thesis by blast
  next
    case (Some fc)
    with b r1 have
      "indexDocuments pipeline config dep repo docs (storedEntries w ?p, ?w3) = (Inr es', w1)"
      by (cases fc) (simp_all add: indexBody_def pathExists_def readJson_def storedEntries_def
          Let_def emit_def ensureDir_def)
    with cache(2) show ?thesis by blast
  qed
  then obtain w0 where c: "embeddingGeneratorCache w0 = embeddingGeneratorCache w" and
    d: "indexDocuments pipeline config dep repo docs (storedEntries w ?p, w0) = (Inr es', w1)"
    by blast
  from c have "embeddingGenerator pipeline config w0 = embeddingGenerator pipeline config w"
    by (simp add: embeddingGenerator_def)
  with indexDocuments_records [OF d] obtain new where
    "es' = storedEntries w ?p @ new"
    "list_all2 (isRecordOf (embeddingGenerator pipeline config w) dep repo) (indexJobs docs) new"
    by auto
  with f w' show ?thesis
    by (intro exI [of _ new]) (simp add: writeJson_def emit_def)
qed

section \<open>The claims about searching\<close>

lemmas world_defs = searchVectorStore_def generateEmbedding_def emit_def pathExists_def
  readJson_def storeWorld_def

text \<open>Whatever the configuration, a search returns at most five results.\<close>

lemma search_returns_at_most_five:
  "length (fst (searchVectorStore ar pipeline projectPath queryText ctx config w)) \<le> 5"
  by (simp add: searchVectorStore_def rankEntries_def split: prod.splits sum.splits bool.splits)

text \<open>
  Claim C1 (the number of results is \<open>chunksReturned\<close>, so that a store of ten records
  searched with \<open>chunksReturned = 8\<close> and no filter gives eight results): the code cuts
  the ranking with the constant \<open>slice(0, 5)\<close> and never reads \<open>chunksReturned\<close>. On
  the input of the repository's test \<^emph>\<open>should respect chunksReturned config parameter\<close>
  the search returns five results, not eight, whatever the floating-point arithmetic
  \<open>ar\<close> makes of the scores.
\<close>

theorem searchVectorStore_ignores_chunksReturned:
  "\<forall>ar. chunksReturned testConfig = 8 \<and>
   length (fst (searchVectorStore ar mockPipeline (ascii ''/test/project'') (ascii ''test query'')
     None (Some testConfig) (storeWorld (StoreFile \<lparr>entries = map testEntry [0..<10]\<rparr>)))) = 5"
  by (simp add: testConfig_def world_defs mockPipeline_def rankEntries_def filterByContext_def)

text \<open>
  Claim C2 (a search whose embedding or store read fails returns an empty result set
  together with an error description): as stated it fails. With a pipeline that cannot
  load its model the embedding of the query fails, and the response is the bare empty
  result, without any error field.
\<close>

theorem search_failure_without_error_flag:
  "\<forall>ar.
   fst (generateEmbedding failingPipeline (query testParams) (Some testConfig)
          (storeWorld (StoreFile \<lparr>entries = map testEntry [0..<10]\<rparr>))) = Inl PipelineError \<and>
   fst (searchDependencyDocs ar failingPipeline (\<lambda>p. testConfig) testParams
          (storeWorld (StoreFile \<lparr>entries = map testEntry [0..<10]\<rparr>))) =
     \<lparr>results = [], error = None\<rparr>"
  by (simp add: searchDependencyDocs_def world_defs failingPipeline_def)

text \<open>
  Claim C2, amended: for every query on which the embedding computation or the store
  read fails, the search returns an empty result set, never a partial one, and reports
  the error on \<open>console.error\<close> only; the response carries no error field, so it reads
  like a search without matches.
\<close>

theorem search_failure_is_only_logged:
  assumes "isl (fst (generateEmbedding pipeline (query params)
                      (Some (getConfig (project_path params))) w)) \<or>
           files w (vectorStorePath (project_path params)) = Some Unparsable"
  shows "fst (searchDependencyDocs ar pipeline getConfig params w) = \<lparr>results = [], error = None\<rparr> \<and>
         last (events (snd (searchDependencyDocs ar pipeline getConfig params w))) =
           ConsoleError ErrorSearching"
proof -
  let ?s = "searchVectorStore ar pipeline (project_path params) (query params)
              (repository_context params) (Some (getConfig (project_path params))) w"
  have "fst ?s = [] \<and> last (events (snd ?s)) = ConsoleError ErrorSearching"
    using assms
  proof
    assume "isl (fst (generateEmbedding pipeline (query params)
                      (Some (getConfig (project_path params))) w))"
    then obtain e where "fst (generateEmbedding pipeline (query params)
                      (Some (getConfig (project_path params))) w) = Inl e"
      by (auto simp: isl_def)
    from searchVectorStore_embedding_fails [OF this, where projectPath = "project_path params"
        and ctx = "repository_context params" and ar = ar]
    show ?thesis by simp
  next
    assume "files w (vectorStorePath (project_path params)) = Some Unparsable"
    from searchVectorStore_unparsable [OF this] show ?thesis by simp
  qed
  then show ?thesis
    by (cases ?s) (simp add: searchDependencyDocs_def)
qed


text \<open>
  The amended claim C2 at a failing pipeline, and at a store file that does not parse.
\<close>

theorem search_failure_is_only_logged_witness:
  "\<forall>ar.
   isl (fst (generateEmbedding failingPipeline (query testParams) (Some testConfig)
          (storeWorld (StoreFile \<lparr>entries = map testEntry [0..<10]\<rparr>)))) \<and>
   fst (searchDependencyDocs ar failingPipeline (\<lambda>p. testConfig) testParams
          (storeWorld (StoreFile \<lparr>entries = map testEntry [0..<10]\<rparr>))) =
     \<lparr>results = [], error = None\<rparr> \<and>
   last (events (snd (searchDependencyDocs ar failingPipeline (\<lambda>p. testConfig) testParams
          (storeWorld (StoreFile \<lparr>entries = map testEntry [0..<10]\<rparr>))))) =
     ConsoleError ErrorSearching \<and>
   files (storeWorld Unparsable) (vectorStorePath (project_path testParams)) = Some Unparsable \<and>
   fst (searchDependencyDocs ar mockPipeline (\<lambda>p. testConfig) testParams (storeWorld Unparsable)) =
     \<lparr>results = [], error = None\<rparr> \<and>
   last (events (snd (searchDependencyDocs ar mockPipeline (\<lambda>p. testConfig) testParams
          (storeWorld Unparsable)))) = ConsoleError ErrorSearching"
proof -
  have a: "isl (fst (generateEmbedding failingPipeline (query testParams) (Some testConfig)
          (storeWorld (StoreFile \<lparr>entries = map testEntry [0..<10]\<rparr>))))"
    by (simp add: generateEmbedding_def failingPipeline_def storeWorld_def)
  have b: "files (storeWorld Unparsable) (vectorStorePath (project_path testParams)) = Some Unparsable"
    by (simp add: storeWorld_def testParams_def)
  show ?thesis
  proof
    fix ar
    show "isl (fst (generateEmbedding failingPipeline (query testParams) (Some testConfig)
          (storeWorld (StoreFile \<lparr>entries = map testEntry [0..<10]\<rparr>)))) \<and>
      fst (searchDependencyDocs ar failingPipeline (\<lambda>p. testConfig) testParams
          (storeWorld (StoreFile \<lparr>entries = map testEntry [0..<10]\<rparr>))) =
        \<lparr>results = [], error = None\<rparr> \<and>
      last (events (snd (searchDependencyDocs ar failingPipeline (\<lambda>p. testConfig) testParams
          (storeWorld (StoreFile \<lparr>entries = map testEntry [0..<10]\<rparr>))))) =
        ConsoleError ErrorSearching \<and>
      files (storeWorld Unparsable) (vectorStorePath (project_path testParams)) =
        Some Unparsable \<and>
      fst (searchDependencyDocs ar mockPipeline (\<lambda>p. testConfig) testParams
          (storeWorld Unparsable)) = \<lparr>results = [], error = None\<rparr> \<and>
      last (events (snd (searchDependencyDocs ar mockPipeline (\<lambda>p. testConfig) testParams
          (storeWorld Unparsable)))) = ConsoleError ErrorSearching"
      using a b
        search_failure_is_only_logged [where pipeline = failingPipeline and params = testParams
          and getConfig = "\<lambda>p. testConfig" and ar = ar
          and w = "storeWorld (StoreFile \<lparr>entries = map testEntry [0..<10]\<rparr>)"]
        search_failure_is_only_logged [where pipeline = mockPipeline and params = testParams
          and getConfig = "\<lambda>p. testConfig" and ar = ar and w = "storeWorld Unparsable"]
      by simp
  qed
qed

text \<open>
  Claim C8: for every project path whose store file does not exist, a search returns the
  empty list, whatever the embedding of the query does; the store is never read, so there
  is nothing to rank; no file changes; and the response is an empty result without an
  error field. (\<open>searchVectorStore\<close> has no exceptional result: it catches every
  exception.)
\<close>

theorem search_without_store:
  assumes "files w (vectorStorePath projectPath) = None"
  shows "fst (searchVectorStore ar pipeline projectPath queryText ctx config w) = [] \<and>
         \<not> list_ex isReadJson
             (newEvents w (snd (searchVectorStore ar pipeline projectPath queryText ctx config w))) \<and>
         files (snd (searchVectorStore ar pipeline projectPath queryText ctx config w)) = files w \<and>
         fst (searchDependencyDocs ar pipeline getConfig
                \<lparr>project_path = projectPath, query = queryText, repository_context = ctx\<rparr> w) =
           \<lparr>results = [], error = None\<rparr>"
  using searchVectorStore_absent [OF assms]
  by (simp add: searchDependencyDocs_response)

text \<open>Claim C8 at the world without any file.\<close>

theorem search_without_store_witness:
  "\<forall>ar.
   files emptyWorld (vectorStorePath (ascii ''/test/project'')) = None \<and>
   fst (searchVectorStore ar mockPipeline (ascii ''/test/project'') (ascii ''test query'') None None
          emptyWorld) = [] \<and>
   fst (searchDependencyDocs ar mockPipeline (\<lambda>p. testConfig)
          \<lparr>project_path = ascii ''/test/project'', query = ascii ''test query'',
            repository_context = None\<rparr> emptyWorld) = \<lparr>results = [], error = None\<rparr>"
proof -
  have a: "files emptyWorld (vectorStorePath (ascii ''/test/project'')) = None"
    by (simp add: emptyWorld_def)
  from search_without_store [OF a, where pipeline = mockPipeline
      and queryText = "ascii ''test query''" and ctx = None and config = None
      and getConfig = "\<lambda>p. testConfig"] a
  show ?thesis by simp
qed

section \<open>The claims about ranking\<close>

lemma rankEntries_subset:
  "set (rankEntries ar q ctx es) \<subseteq> scoreEntry ar q ` set es"
proof -
  have "set (filterByContext ctx (map (scoreEntry ar q) es)) \<subseteq> scoreEntry ar q ` set es"
    by (auto simp: filterByContext_def split: option.splits)
  moreover have "set (rankEntries ar q ctx es) \<subseteq>
      set (filterByContext ctx (map (scoreEntry ar q) es))"
    using set_take_subset [of 5
        "sortBy compareScores (filterByContext ctx (map (scoreEntry ar q) es))"]
    by (simp add: rankEntries_def)
  ultimately show ?thesis by blast
qed

lemma prefix_filter_take: "prefix (filter P (take n xs)) (filter P xs)"
proof -
  have "filter P xs = filter P (take n xs) @ filter P (drop n xs)"
    by (metis append_take_drop_id filter_append)
  then show ?thesis by (simp add: prefix_def)
qed

lemma rankEntries_sorted_stable:
  assumes "\<forall>r\<in>set (filterByContext ctx (map (scoreEntry ar q) es)). similarity_score r \<noteq> NaN"
  shows "sorted_wrt numGe (map similarity_score (rankEntries ar q ctx es)) \<and>
         prefix (filter (\<lambda>r. similarity_score r = k) (rankEntries ar q ctx es))
                (filter (\<lambda>r. similarity_score r = k)
                   (filterByContext ctx (map (scoreEntry ar q) es)))"
proof -
  let ?cands = "filterByContext ctx (map (scoreEntry ar q) es)"
  let ?key = "\<lambda>r. scoreRank (similarity_score r)"
  have sorted_eq: "sortBy compareScores ?cands = sort_key ?key ?cands"
    by (rule sortBy_sort_key [OF assms])
  have rank: "rankEntries ar q ctx es = take 5 (sort_key ?key ?cands)"
    by (simp add: rankEntries_def sorted_eq)
  have "sorted (map ?key (take 5 (sort_key ?key ?cands)))"
    by (simp add: take_map [symmetric] sorted_wrt_take del: take_map)
  moreover have "\<forall>r\<in>set (take 5 (sort_key ?key ?cands)). similarity_score r \<noteq> NaN"
    using assms set_take_subset [of 5 "sort_key ?key ?cands"] by auto
  ultimately have s: "sorted_wrt numGe (map similarity_score (rankEntries ar q ctx es))"
    unfolding rank by (intro sorted_scores)
  have same: "filter (\<lambda>r. similarity_score r = k) xs = filter (\<lambda>r. ?key r = scoreRank k) xs"
    for xs :: "SearchResult list"
    by (simp add: scoreRank_inject)
  have "filter (\<lambda>r. ?key r = scoreRank k) (sort_key ?key ?cands) =
        filter (\<lambda>r. ?key r = scoreRank k) ?cands"
    by (rule sort_key_stable)
  then have "filter (\<lambda>r. similarity_score r = k) (sort_key ?key ?cands) =
        filter (\<lambda>r. similarity_score r = k) ?cands"
    by (simp only: same)
  with prefix_filter_take [of "\<lambda>r. similarity_score r = k" 5 "sort_key ?key ?cands"]
  have "prefix (filter (\<lambda>r. similarity_score r = k) (rankEntries ar q ctx es))
                (filter (\<lambda>r. similarity_score r = k) ?cands)"
    by (simp add: rank)
  with s show ?thesis by simp
qed

lemma scores_ieee:
  "cosineSimilarity ieeeArithmetic [3, 4] [0, 0] = NaN"
  "cosineSimilarity ieeeArithmetic [3, 4] [4, - 3] = Num 0"
  "cosineSimilarity ieeeArithmetic [3, 4] [3, 4] = Num 1"
  "cosineSimilarity ieeeArithmetic [3, 4] [- 3, - 4] = Num (- 1)"
  by (simp_all add: cosineSimilarity_def cosineStep_def element_def ieeeArithmetic_def sqrt_25
      infinityOfSign_def)

lemma context_matches:
  "ascii ''test/repo'' \<noteq> []"
  "includesString (ascii ''https://github.com/test/repo'') (ascii ''test/repo'')"
  "\<not> includesString (ascii ''https://github.com/other/lib'') (ascii ''test/repo'')"
  "\<not> includesString (ascii ''/z.md'') (ascii ''test/repo'')"
  by code_simp+

lemma mixedStore_filtered:
  "filterByContext (Some (ascii ''test/repo'')) (map (scoreEntry ar q) (entries mixedStore)) =
     map (scoreEntry ar q) (entries normFiveStore)"
  by (simp add: filterByContext_def scoreEntry_def mixedStore_def normFiveStore_def
      vectorEntry_def foreignEntry_def context_matches)

text \<open>
  Claim C5 (the result list is always sorted non-increasing by score) fails as stated: a
  zero vector in the store scores \<open>0 / 0\<close>, which is NaN; the comparator returns NaN
  for it, which the sort reads as equality, and the record stays in front of a record
  with score 1. No order of the two scores is non-increasing. (Query vector \<open>[3, 4]\<close>,
  records \<open>[0, 0]\<close> and \<open>[3, 4]\<close>: the sums are 0, 9 and 25, the roots 0 and 5, the
  products 0 and 25, and the quotients \<open>0 / 0\<close> and \<open>25 / 25\<close>.)
\<close>

theorem nan_score_breaks_order:
  "map similarity_score
     (fst (searchVectorStore ieeeArithmetic unitPipeline (ascii ''/test/project'')
             (ascii ''test query'') None None (storeWorld (StoreFile zeroStore)))) =
     [NaN, Num 1] \<and>
   \<not> sorted_wrt numGe [NaN, Num 1] \<and> \<not> sorted_wrt numGe [Num 1, NaN]"
  by (simp add: searchVectorStore_def generateEmbedding_def emit_def pathExists_def
      readJson_def storeWorld_def rankEntries_def filterByContext_def sortBy_def scoreEntry_def
      vectorEntry_def compareScores_def comparatorSign_def numSub_def unitPipeline_def
      zeroStore_def scores_ieee)

text \<open>
  Claim C5, amended: whatever the floating-point arithmetic computes, whenever none of
  the records that pass the repository filter scores NaN against the query, the result
  list of \<open>searchVectorStore\<close> is sorted non-increasing by the computed
  \<open>similarity_score\<close>, and the results with one computed score are the first of the
  filtered records with that score, in store order. Records that the filter removes may
  score NaN.
\<close>

theorem ranking_sorted_and_stable:
  assumes "fst (generateEmbedding pipeline queryText config w) = Inr q"
    and "files w (vectorStorePath projectPath) = Some (StoreFile store)"
    and "\<forall>r\<in>set (filterByContext ctx (map (scoreEntry ar q) (entries store))).
           similarity_score r \<noteq> NaN"
  shows "sorted_wrt numGe (map similarity_score
           (fst (searchVectorStore ar pipeline projectPath queryText ctx config w))) \<and>
         (\<forall>k. prefix
            (filter (\<lambda>r. similarity_score r = k)
               (fst (searchVectorStore ar pipeline projectPath queryText ctx config w)))
            (filter (\<lambda>r. similarity_score r = k)
               (filterByContext ctx (map (scoreEntry ar q) (entries store)))))"
  using rankEntries_sorted_stable [OF assms(3)]
  by (simp add: searchVectorStore_ranks [OF assms(1,2)])

text \<open>
  The amended claim C5 on a store of five records, searched with the repository filter
  \<open>test/repo\<close>: the first record belongs to another repository and scores NaN, the
  four others pass the filter with the scores 0, 1, -1 and 1. The ranking is
  \<open>b, d, a, c\<close>, with the tie \<open>b, d\<close> in store order. And on the store of
  \<open>[3, 3, 3]\<close> and \<open>[1, 1, 1]\<close>, searched with \<open>[1, 1, 1]\<close>: the computed
  scores are 1 and \<open>1 + 2 ^ -52\<close>, so the second record is ranked first.
\<close>

theorem ranking_sorted_and_stable_witness:
  "fst (generateEmbedding unitPipeline (ascii ''test query'') None
          (storeWorld (StoreFile mixedStore))) = Inr [3, 4] \<and>
   files (storeWorld (StoreFile mixedStore)) (vectorStorePath (ascii ''/test/project'')) =
     Some (StoreFile mixedStore) \<and>
   similarity_score (scoreEntry ieeeArithmetic [3, 4] (hd (entries mixedStore))) = NaN \<and>
   list_all (\<lambda>r. similarity_score r \<noteq> NaN)
     (filterByContext (Some (ascii ''test/repo''))
        (map (scoreEntry ieeeArithmetic [3, 4]) (entries mixedStore))) \<and>
   map text_chunk
     (fst (searchVectorStore ieeeArithmetic unitPipeline (ascii ''/test/project'')
             (ascii ''test query'') (Some (ascii ''test/repo'')) None
             (storeWorld (StoreFile mixedStore)))) =
     [ascii ''b'', ascii ''d'', ascii ''a'', ascii ''c''] \<and>
   map similarity_score
     (fst (searchVectorStore ieeeArithmetic unitPipeline (ascii ''/test/project'')
             (ascii ''test query'') (Some (ascii ''test/repo'')) None
             (storeWorld (StoreFile mixedStore)))) =
     [Num 1, Num 1, Num 0, Num (- 1)] \<and>
   sorted_wrt numGe (map similarity_score
     (fst (searchVectorStore ieeeArithmetic unitPipeline (ascii ''/test/project'')
             (ascii ''test query'') (Some (ascii ''test/repo'')) None
             (storeWorld (StoreFile mixedStore))))) \<and>
   prefix
     (filter (\<lambda>r. similarity_score r = Num 1)
        (fst (searchVectorStore ieeeArithmetic unitPipeline (ascii ''/test/project'')
                (ascii ''test query'') (Some (ascii ''test/repo'')) None
                (storeWorld (StoreFile mixedStore)))))
     (filter (\<lambda>r. similarity_score r = Num 1)
        (filterByContext (Some (ascii ''test/repo''))
           (map (scoreEntry ieeeArithmetic [3, 4]) (entries mixedStore)))) \<and>
   fst (generateEmbedding onesPipeline (ascii ''test query'') None
          (storeWorld (StoreFile scaledStore))) = Inr [1, 1, 1] \<and>
   map similarity_score (map (scoreEntry ieeeArithmetic [1, 1, 1]) (entries scaledStore)) =
     [Num 1, Num (4503599627370497 / 4503599627370496)] \<and>
   map text_chunk
     (fst (searchVectorStore ieeeArithmetic onesPipeline (ascii ''/test/project'')
             (ascii ''test query'') None None (storeWorld (StoreFile scaledStore)))) =
     [ascii ''ones'', ascii ''threes''] \<and>
   sorted_wrt numGe (map similarity_score
     (fst (searchVectorStore ieeeArithmetic onesPipeline (ascii ''/test/project'')
             (ascii ''test query'') None None (storeWorld (StoreFile scaledStore)))))"
proof -
  let ?w = "storeWorld (StoreFile mixedStore)"
  let ?ctx = "Some (ascii ''test/repo'')"
  let ?search = "searchVectorStore ieeeArithmetic unitPipeline (ascii ''/test/project'')
             (ascii ''test query'') ?ctx None ?w"
  have a: "fst (generateEmbedding unitPipeline (ascii ''test query'') None ?w) = Inr [3, 4]"
    by (simp add: generateEmbedding_def unitPipeline_def emit_def storeWorld_def)
  have b: "files ?w (vectorStorePath (ascii ''/test/project'')) = Some (StoreFile mixedStore)"
    by (simp add: storeWorld_def)
  have z: "similarity_score (scoreEntry ieeeArithmetic [3, 4] (hd (entries mixedStore))) = NaN"
    by (simp add: mixedStore_def foreignEntry_def scoreEntry_def scores_ieee)
  have c: "\<forall>r\<in>set (filterByContext ?ctx
             (map (scoreEntry ieeeArithmetic [3, 4]) (entries mixedStore))).
           similarity_score r \<noteq> NaN"
    unfolding mixedStore_filtered
    by (simp add: normFiveStore_def vectorEntry_def scoreEntry_def scores_ieee)
  have r: "fst ?search =
     map (scoreEntry ieeeArithmetic [3, 4])
       [vectorEntry ''b'' [3, 4], vectorEntry ''d'' [3, 4], vectorEntry ''a'' [4, - 3],
        vectorEntry ''c'' [- 3, - 4]]"
    unfolding searchVectorStore_ranks [OF a b] rankEntries_def mixedStore_filtered
    by (simp add: sortBy_def scoreEntry_def vectorEntry_def compareScores_def
        comparatorSign_def numSub_def normFiveStore_def scores_ieee)
  have d: "map text_chunk (fst ?search) = [ascii ''b'', ascii ''d'', ascii ''a'', ascii ''c'']"
    and e: "map similarity_score (fst ?search) = [Num 1, Num 1, Num 0, Num (- 1)]"
    unfolding r by (simp_all add: scoreEntry_def vectorEntry_def scores_ieee)
  let ?w' = "storeWorld (StoreFile scaledStore)"
  let ?search' = "searchVectorStore ieeeArithmetic onesPipeline (ascii ''/test/project'')
             (ascii ''test query'') None None ?w'"
  have a': "fst (generateEmbedding onesPipeline (ascii ''test query'') None ?w') = Inr [1, 1, 1]"
    by (simp add: generateEmbedding_def onesPipeline_def emit_def storeWorld_def)
  have b': "files ?w' (vectorStorePath (ascii ''/test/project'')) = Some (StoreFile scaledStore)"
    by (simp add: storeWorld_def)
  have s': "map similarity_score (map (scoreEntry ieeeArithmetic [1, 1, 1]) (entries scaledStore)) =
      [Num 1, Num (4503599627370497 / 4503599627370496)]"
    by (simp add: scaledStore_def vectorEntry_def scoreEntry_def score_ones score_threes)
  have c': "\<forall>r\<in>set (filterByContext None
             (map (scoreEntry ieeeArithmetic [1, 1, 1]) (entries scaledStore))).
           similarity_score r \<noteq> NaN"
    by (simp add: filterByContext_def scaledStore_def vectorEntry_def scoreEntry_def score_ones
        score_threes)
  have d': "map text_chunk (fst ?search') = [ascii ''ones'', ascii ''threes'']"
    unfolding searchVectorStore_ranks [OF a' b'] rankEntries_def
    by (simp add: filterByContext_def sortBy_def scoreEntry_def vectorEntry_def compareScores_def
        comparatorSign_def numSub_def scaledStore_def score_ones score_threes)
  from ranking_sorted_and_stable [OF a b c] ranking_sorted_and_stable [OF a' b' c']
    a b z c d e a' s' d'
  show ?thesis by (simp add: list_all_iff)
qed

text \<open>
  Claim C7 (every score is a number in \<open>[-1, 1]\<close>) fails as stated, in two ways. A
  record whose embedding is the zero vector scores \<open>0 / 0\<close>, which is NaN (query
  vector \<open>[3, 4]\<close>, record \<open>[0, 0]\<close>). And the record \<open>[1, 1, 1]\<close> scores
  \<open>1 + 2 ^ -52\<close> against the query vector \<open>[1, 1, 1]\<close>: the product of the two
  rounded square roots of 3 rounds to a double below 3.
\<close>

theorem scores_outside_the_interval:
  "map similarity_score
     (fst (searchVectorStore ieeeArithmetic unitPipeline (ascii ''/test/project'')
             (ascii ''test query'') None None
             (storeWorld (StoreFile \<lparr>entries = [vectorEntry ''zero'' [0, 0]]\<rparr>)))) = [NaN] \<and>
   map similarity_score
     (fst (searchVectorStore ieeeArithmetic onesPipeline (ascii ''/test/project'')
             (ascii ''test query'') None None
             (storeWorld (StoreFile \<lparr>entries = [vectorEntry ''ones'' [1, 1, 1]]\<rparr>)))) =
     [Num (4503599627370497 / 4503599627370496)] \<and>
   (1 :: real) < 4503599627370497 / 4503599627370496"
  by (simp add: searchVectorStore_def generateEmbedding_def emit_def pathExists_def
      readJson_def storeWorld_def rankEntries_def filterByContext_def sortBy_def scoreEntry_def
      vectorEntry_def unitPipeline_def onesPipeline_def scores_ieee score_ones)

text \<open>
  Claim C7, amended: every result of \<open>searchVectorStore\<close> belongs to a record of the
  loaded store, and its \<open>similarity_score\<close> is a floating-point value that is not
  confined to \<open>[-1, 1]\<close>. When the record's embedding is at least as long as the query
  embedding, the score is the floating-point quotient of the dot product by the product
  of the two Euclidean norms, each sum accumulated from zero in coordinate order with
  every operation rounded, over the coordinates of the query embedding. In every
  arithmetic with the laws of IEEE 754 for NaN and zero the score is NaN when the
  record's embedding is shorter than the query embedding, when the query embedding is a
  zero vector, or when the record's embedding is zero on the coordinates of the query.
\<close>

theorem similarity_score_is_rounded_cosine:
  assumes "fst (generateEmbedding pipeline queryText config w) = Inr q"
    and "files w (vectorStorePath projectPath) = Some (StoreFile store)"
    and "r \<in> set (fst (searchVectorStore ar pipeline projectPath queryText ctx config w))"
  shows "\<exists>e\<in>set (entries store). r = scoreEntry ar q e \<and>
            similarity_score r = cosineSimilarity ar q (embedding e) \<and>
            (length q \<le> length (embedding e) \<longrightarrow>
             similarity_score r =
               fdiv ar (floatDot ar q (embedding e))
                 (fmul ar (floatNorm ar q) (floatNorm ar (take (length q) (embedding e))))) \<and>
            (ieeeLaws ar \<and>
               (length (embedding e) < length q \<or> list_all (\<lambda>x. x = 0) q \<or>
                list_all (\<lambda>x. x = 0) (take (length q) (embedding e))) \<longrightarrow>
             similarity_score r = NaN)"
proof -
  from assms(3) have "r \<in> set (rankEntries ar q ctx (entries store))"
    by (simp add: searchVectorStore_ranks [OF assms(1,2)])
  with rankEntries_subset [of ar q ctx "entries store"]
  obtain e where e: "e \<in> set (entries store)" "r = scoreEntry ar q e" by auto
  then have score: "similarity_score r = cosineSimilarity ar q (embedding e)"
    by (simp add: scoreEntry_def)
  have long: "length q \<le> length (embedding e) \<Longrightarrow>
        similarity_score r =
          fdiv ar (floatDot ar q (embedding e))
            (fmul ar (floatNorm ar q) (floatNorm ar (take (length q) (embedding e))))"
    by (simp add: score cosineSimilarity_long)
  have nan: "similarity_score r = NaN"
    if l: "ieeeLaws ar" and
      z: "length (embedding e) < length q \<or> list_all (\<lambda>x. x = 0) q \<or>
          list_all (\<lambda>x. x = 0) (take (length q) (embedding e))"
  proof (cases "length (embedding e) < length q")
    case True
    with l show ?thesis by (simp add: score cosineSimilarity_short)
  next
    case False
    then have "length q \<le> length (embedding e)" by simp
    from cosineSimilarity_zero [OF l this] z False show ?thesis by (simp add: score)
  qed
  from e score long nan show ?thesis by blast
qed

text \<open>
  The amended claim C7 for the query vector \<open>[3, 4]\<close> and the records \<open>[0, 0]\<close>,
  which scores NaN, and \<open>[3, 4]\<close>, which scores \<open>25 / (5 * 5)\<close>.
\<close>

theorem similarity_score_is_rounded_cosine_witness:
  "fst (generateEmbedding unitPipeline (ascii ''test query'') None
          (storeWorld (StoreFile zeroStore))) = Inr [3, 4] \<and>
   fst (searchVectorStore ieeeArithmetic unitPipeline (ascii ''/test/project'')
          (ascii ''test query'') None None (storeWorld (StoreFile zeroStore))) =
     [scoreEntry ieeeArithmetic [3, 4] (vectorEntry ''zero'' [0, 0]),
      scoreEntry ieeeArithmetic [3, 4] (vectorEntry ''same'' [3, 4])] \<and>
   ieeeLaws ieeeArithmetic \<and>
   similarity_score (scoreEntry ieeeArithmetic [3, 4] (vectorEntry ''zero'' [0, 0])) = NaN \<and>
   similarity_score (scoreEntry ieeeArithmetic [3, 4] (vectorEntry ''same'' [3, 4])) =
     fdiv ieeeArithmetic (floatDot ieeeArithmetic [3, 4] [3, 4])
       (fmul ieeeArithmetic (floatNorm ieeeArithmetic [3, 4])
          (floatNorm ieeeArithmetic [3, 4])) \<and>
   floatDot ieeeArithmetic [3, 4] [3, 4] = Num 25 \<and>
   floatNorm ieeeArithmetic [3, 4] = Num 5 \<and>
   similarity_score (scoreEntry ieeeArithmetic [3, 4] (vectorEntry ''same'' [3, 4])) = Num 1"
proof -
  let ?w = "storeWorld (StoreFile zeroStore)"
  let ?zero = "vectorEntry ''zero'' [0, 0]"
  let ?same = "vectorEntry ''same'' [3, 4]"
  let ?search = "searchVectorStore ieeeArithmetic unitPipeline (ascii ''/test/project'')
          (ascii ''test query'') None None ?w"
  have a: "fst (generateEmbedding unitPipeline (ascii ''test query'') None ?w) = Inr [3, 4]"
    by (simp add: generateEmbedding_def unitPipeline_def emit_def storeWorld_def)
  have b: "files ?w (vectorStorePath (ascii ''/test/project'')) = Some (StoreFile zeroStore)"
    by (simp add: storeWorld_def)
  have c: "fst ?search = [scoreEntry ieeeArithmetic [3, 4] ?zero,
                          scoreEntry ieeeArithmetic [3, 4] ?same]"
    unfolding searchVectorStore_ranks [OF a b]
    by (simp add: rankEntries_def filterByContext_def sortBy_def zeroStore_def
        compareScores_def comparatorSign_def numSub_def scoreEntry_def vectorEntry_def
        scores_ieee)
  have ne: "ascii ''zero'' \<noteq> ascii ''same''" by (simp add: ascii_def)
  have m1: "scoreEntry ieeeArithmetic [3, 4] ?zero \<in> set (fst ?search)"
    and m2: "scoreEntry ieeeArithmetic [3, 4] ?same \<in> set (fst ?search)"
    by (simp_all add: c)
  from similarity_score_is_rounded_cosine [OF a b m1] ieeeArithmetic_laws ne
  have z: "similarity_score (scoreEntry ieeeArithmetic [3, 4] ?zero) = NaN"
    by (auto simp: zeroStore_def scoreEntry_def vectorEntry_def)
  from similarity_score_is_rounded_cosine [OF a b m2] ne
  have s: "similarity_score (scoreEntry ieeeArithmetic [3, 4] ?same) =
     fdiv ieeeArithmetic (floatDot ieeeArithmetic [3, 4] [3, 4])
       (fmul ieeeArithmetic (floatNorm ieeeArithmetic [3, 4])
          (floatNorm ieeeArithmetic [3, 4]))"
    by (auto simp: zeroStore_def scoreEntry_def vectorEntry_def)
  have d: "floatDot ieeeArithmetic [3, 4] [3, 4] = Num 25"
    and n: "floatNorm ieeeArithmetic [3, 4] = Num 5"
    by (simp_all add: floatDot_def floatNorm_def floatSum_def ieeeArithmetic_def sqrt_25)
  have v: "similarity_score (scoreEntry ieeeArithmetic [3, 4] ?same) = Num 1"
    by (simp add: scoreEntry_def vectorEntry_def scores_ieee)
  from a c ieeeArithmetic_laws z s d n v show ?thesis by simp
qed

section \<open>The claims about indexing\<close>

text \<open>
  Claim C3 (a failed embedding aborts the chunks of its document, but the remaining
  documents of the call are still processed) fails as stated: the exception leaves both
  loops. With two documents \<open>alpha\<close> and \<open>beta\<close> and a model that fails on
  \<open>alpha\<close>, the text \<open>beta\<close>, which is a chunk of its own, is never embedded;
  the call logs the error and throws it again.
\<close>

theorem later_documents_are_not_processed:
  "splitIntoChunks (textDocument ''/b.md'' ''beta'') 800 8000 = [ascii ''beta''] \<and>
   fst (indexDocumentation alphaPipeline (ascii ''/p'') exampleDependency exampleRepository
          [textDocument ''/a.md'' ''alpha'', textDocument ''/b.md'' ''beta''] None emptyWorld) =
     Inl GeneratorError \<and>
   events (snd (indexDocumentation alphaPipeline (ascii ''/p'') exampleDependency
          exampleRepository
          [textDocument ''/a.md'' ''alpha'', textDocument ''/b.md'' ''beta''] None emptyWorld)) =
     [EnsureDir (ascii ''/p/.dependency-context''),
      PathExists (ascii ''/p/.dependency-context/vector-store.json''),
      GenerateEmbedding (ascii ''alpha'') False, ConsoleError ErrorIndexing]"
  by code_simp

text \<open>
  Claim C3, amended: if embedding one chunk fails, \<open>indexDocumentation\<close> stops
  there. The failed call is the last call to the embedder, so neither the remaining
  chunks of that document nor any later document of the call are processed; the error is
  logged and thrown again, and the store file is not written.
\<close>

theorem indexing_aborts_at_first_failure:
  assumes "indexDocumentation pipeline projectPath dep repo docs config w = (r, w')"
    and "list_ex isEmbeddingFailure (newEvents w w')"
  shows "isl r \<and> files w' = files w \<and>
         last (newEvents w w') = ConsoleError ErrorIndexing \<and>
         isEmbeddingFailure (last (butlast (newEvents w w'))) \<and>
         \<not> list_ex isEmbeddingFailure (butlast (butlast (newEvents w w'))) \<and>
         \<not> list_ex isWriteJson (newEvents w w')"
proof -
  from indexDocumentation_run [OF assms(1)] obtain pre evs where
    pre: "list_all isPreparation pre" and
    alt: "r = Inr () \<and> embeddingRun True evs \<and>
              newEvents w w' = pre @ evs @ [WriteJson (vectorStorePath projectPath)]
            \<or> isl r \<and> (embeddingRun False evs \<or> evs = []) \<and>
              newEvents w w' = pre @ evs @ [ConsoleError ErrorIndexing] \<and> files w' = files w"
    by blast
  from alt show ?thesis
  proof
    assume "r = Inr () \<and> embeddingRun True evs \<and>
              newEvents w w' = pre @ evs @ [WriteJson (vectorStorePath projectPath)]"
    with assms(2) preparation_no_failure [OF pre] embedded_no_failure [of evs]
    show ?thesis by (auto simp: embeddingRun_def)
  next
    assume f: "isl r \<and> (embeddingRun False evs \<or> evs = []) \<and>
              newEvents w w' = pre @ evs @ [ConsoleError ErrorIndexing] \<and> files w' = files w"
    with assms(2) preparation_no_failure [OF pre] have run: "embeddingRun False evs"
      by auto
    then have ne: "evs \<noteq> []" and ok: "list_all isEmbedded (butlast evs)"
      and l: "isEmbeddingFailure (last evs)" by (simp_all add: embeddingRun_def)
    from f have new: "newEvents w w' = pre @ evs @ [ConsoleError ErrorIndexing]" by simp
    have b1: "butlast (newEvents w w') = pre @ evs"
      by (simp add: new butlast_append)
    have b2: "butlast (butlast (newEvents w w')) = pre @ butlast evs"
      using ne by (simp add: b1 butlast_append)
    have "\<not> list_ex isWriteJson (newEvents w w')"
      using preparation_no_write [OF pre] embeddingRun_no_write [OF run] by (simp add: new)
    moreover have "\<not> list_ex isEmbeddingFailure (butlast (butlast (newEvents w w')))"
      using preparation_no_failure [OF pre] embedded_no_failure [OF ok] by (simp add: b2)
    moreover have "last (newEvents w w') = ConsoleError ErrorIndexing"
      by (simp add: new)
    moreover have "isEmbeddingFailure (last (butlast (newEvents w w')))"
      using l ne by (simp add: b1)
    ultimately show ?thesis using f by blast
  qed
qed

text \<open>The amended claim C3 on the two documents \<open>alpha\<close> and \<open>beta\<close>.\<close>

theorem indexing_aborts_at_first_failure_witness:
  "list_ex isEmbeddingFailure (newEvents emptyWorld
     (snd (indexDocumentation alphaPipeline (ascii ''/p'') exampleDependency exampleRepository
        [textDocument ''/a.md'' ''alpha'', textDocument ''/b.md'' ''beta''] None emptyWorld))) \<and>
   isl (fst (indexDocumentation alphaPipeline (ascii ''/p'') exampleDependency exampleRepository
        [textDocument ''/a.md'' ''alpha'', textDocument ''/b.md'' ''beta''] None emptyWorld)) \<and>
   files (snd (indexDocumentation alphaPipeline (ascii ''/p'') exampleDependency exampleRepository
        [textDocument ''/a.md'' ''alpha'', textDocument ''/b.md'' ''beta''] None emptyWorld)) =
     files emptyWorld \<and>
   \<not> list_ex isWriteJson (newEvents emptyWorld
     (snd (indexDocumentation alphaPipeline (ascii ''/p'') exampleDependency exampleRepository
        [textDocument ''/a.md'' ''alpha'', textDocument ''/b.md'' ''beta''] None emptyWorld)))"
proof -
  let ?run = "indexDocumentation alphaPipeline (ascii ''/p'') exampleDependency exampleRepository
        [textDocument ''/a.md'' ''alpha'', textDocument ''/b.md'' ''beta''] None emptyWorld"
  have a: "?run = (fst ?run, snd ?run)" by simp
  have b: "list_ex isEmbeddingFailure (newEvents emptyWorld (snd ?run))" by code_simp
  from indexing_aborts_at_first_failure [OF a b] b show ?thesis by simp
qed

text \<open>
  Claim C10: \<open>indexDocumentation\<close> writes the store file at most once, and a write is
  the last thing it does, after every document and chunk has been processed; if an
  embedding call of the run throws, nothing is written and the files are exactly those
  from before the call.
\<close>

theorem store_written_once_at_the_end:
  assumes "indexDocumentation pipeline projectPath dep repo docs config w = (r, w')"
  shows "length (filter isWriteJson (newEvents w w')) \<le> 1 \<and>
         (list_ex isWriteJson (newEvents w w') \<longrightarrow>
            last (newEvents w w') = WriteJson (vectorStorePath projectPath) \<and>
            \<not> list_ex isWriteJson (butlast (newEvents w w'))) \<and>
         (list_ex isEmbeddingFailure (newEvents w w') \<longrightarrow>
            files w' = files w \<and> \<not> list_ex isWriteJson (newEvents w w'))"
proof -
  from indexDocumentation_run [OF assms(1)] obtain pre evs where
    pre: "list_all isPreparation pre" and
    alt: "r = Inr () \<and> embeddingRun True evs \<and>
              newEvents w w' = pre @ evs @ [WriteJson (vectorStorePath projectPath)]
            \<or> isl r \<and> (embeddingRun False evs \<or> evs = []) \<and>
              newEvents w w' = pre @ evs @ [ConsoleError ErrorIndexing] \<and> files w' = files w"
    by blast
  have nw: "filter isWriteJson pre = []"
    using preparation_no_write [OF pre] by (simp add: list_ex_iff filter_empty_conv)
  from alt show ?thesis
  proof
    assume s: "r = Inr () \<and> embeddingRun True evs \<and>
              newEvents w w' = pre @ evs @ [WriteJson (vectorStorePath projectPath)]"
    then have ok: "list_all isEmbedded evs" by (simp add: embeddingRun_def)
    have "filter isWriteJson evs = []"
      using embedded_no_write [OF ok] by (simp add: list_ex_iff filter_empty_conv)
    moreover have "butlast (newEvents w w') = pre @ evs"
      using s by (simp add: butlast_append)
    ultimately show ?thesis
      using s nw preparation_no_write [OF pre] embedded_no_write [OF ok]
        preparation_no_failure [OF pre] embedded_no_failure [OF ok]
      by simp
  next
    assume f: "isl r \<and> (embeddingRun False evs \<or> evs = []) \<and>
              newEvents w w' = pre @ evs @ [ConsoleError ErrorIndexing] \<and> files w' = files w"
    then have "\<not> list_ex isWriteJson evs" using embeddingRun_no_write [of False evs] by auto
    then have "\<not> list_ex isWriteJson (newEvents w w')"
      using f preparation_no_write [OF pre] by simp
    then show ?thesis using f by (simp add: list_ex_iff filter_empty_conv)
  qed
qed

text \<open>
  Claim C10 on a run that fails at its first chunk, and on a run that succeeds and writes
  the store last.
\<close>

theorem store_written_once_at_the_end_witness:
  "list_ex isEmbeddingFailure (newEvents emptyWorld
     (snd (indexDocumentation alphaPipeline (ascii ''/p'') exampleDependency exampleRepository
        [textDocument ''/a.md'' ''alpha'', textDocument ''/b.md'' ''beta''] None emptyWorld))) \<and>
   files (snd (indexDocumentation alphaPipeline (ascii ''/p'') exampleDependency exampleRepository
        [textDocument ''/a.md'' ''alpha'', textDocument ''/b.md'' ''beta''] None emptyWorld)) =
     files emptyWorld \<and>
   list_ex isWriteJson (newEvents emptyWorld
     (snd (indexDocumentation mockPipeline (ascii ''/p'') exampleDependency exampleRepository
        [textDocument ''/b.md'' ''beta''] None emptyWorld))) \<and>
   last (newEvents emptyWorld
     (snd (indexDocumentation mockPipeline (ascii ''/p'') exampleDependency exampleRepository
        [textDocument ''/b.md'' ''beta''] None emptyWorld))) =
     WriteJson (vectorStorePath (ascii ''/p''))"
proof -
  let ?bad = "indexDocumentation alphaPipeline (ascii ''/p'') exampleDependency exampleRepository
        [textDocument ''/a.md'' ''alpha'', textDocument ''/b.md'' ''beta''] None emptyWorld"
  let ?good = "indexDocumentation mockPipeline (ascii ''/p'') exampleDependency exampleRepository
        [textDocument ''/b.md'' ''beta''] None emptyWorld"
  have a: "?bad = (fst ?bad, snd ?bad)" and a': "?good = (fst ?good, snd ?good)" by simp_all
  have b: "list_ex isEmbeddingFailure (newEvents emptyWorld (snd ?bad))" by code_simp
  have c: "list_ex isWriteJson (newEvents emptyWorld (snd ?good))" by code_simp
  from store_written_once_at_the_end [OF a] store_written_once_at_the_end [OF a'] b c
  show ?thesis by simp
qed

text \<open>
  Claim C9: after every successful call of \<open>indexDocumentation\<close>, loading the store
  file of the project returns the entries that the store held before the call, followed
  by one record for each chunk of the call that is not blank, in order, each with
  exactly the chunk text, the embedding that the model gave for it, and the repository
  URL, document path and dependency name of the call; and a search in that project ranks
  exactly these entries.
\<close>

theorem appended_records_are_loaded:
  assumes "indexDocumentation pipeline projectPath dep repo docs config w = (Inr (), w')"
  shows "\<exists>new.
           fst (readJson (vectorStorePath projectPath) w') =
             Inr \<lparr>entries = storedEntries w (vectorStorePath projectPath) @ new\<rparr> \<and>
           list_all2 (isRecordOf (embeddingGenerator pipeline config w) dep repo)
             (indexJobs docs) new \<and>
           (\<forall>q. fst (generateEmbedding pipeline' queryText config' w') = Inr q \<longrightarrow>
              fst (searchVectorStore ar pipeline' projectPath queryText ctx config' w') =
                rankEntries ar q ctx (storedEntries w (vectorStorePath projectPath) @ new))"
proof -
  let ?p = "vectorStorePath projectPath"
  from indexDocumentation_records [OF assms] obtain new where
    f: "files w' = (files w)(?p \<mapsto> StoreFile \<lparr>entries = storedEntries w ?p @ new\<rparr>)" and
    n: "list_all2 (isRecordOf (embeddingGenerator pipeline config w) dep repo)
          (indexJobs docs) new"
    by blast
  from f have s: "files w' ?p = Some (StoreFile \<lparr>entries = storedEntries w ?p @ new\<rparr>)"
    by simp
  then have "fst (readJson ?p w') = Inr \<lparr>entries = storedEntries w ?p @ new\<rparr>"
    by (simp add: readJson_def)
  moreover have "fst (searchVectorStore ar pipeline' projectPath queryText ctx config' w') =
      rankEntries ar q ctx (storedEntries w ?p @ new)"
    if "fst (generateEmbedding pipeline' queryText config' w') = Inr q" for q
    using searchVectorStore_ranks [OF that s] by simp
  ultimately show ?thesis using n by blast
qed

text \<open>
  Claim C9 on two calls for the same project: the first, without a store file, stores
  the record of \<open>beta\<close>; the second appends the record of \<open>gamma\<close>; loading
  the store then returns both records, field by field.
\<close>

theorem appended_records_are_loaded_witness:
  "fst (indexDocumentation alphaPipeline (ascii ''/p'') exampleDependency exampleRepository
          [textDocument ''/c.md'' ''gamma''] None
          (snd (indexDocumentation alphaPipeline (ascii ''/p'') exampleDependency
                  exampleRepository [textDocument ''/b.md'' ''beta''] None emptyWorld))) =
     Inr () \<and>
   storedEntries
     (snd (indexDocumentation alphaPipeline (ascii ''/p'') exampleDependency
             exampleRepository [textDocument ''/b.md'' ''beta''] None emptyWorld))
     (vectorStorePath (ascii ''/p'')) =
     [\<lparr>chunk = ascii ''beta'', embedding = [1, 0],
       metadata = \<lparr>repository = ascii ''https://github.com/expressjs/express'',
                    file' = ascii ''/b.md'', dependency = ascii ''express''\<rparr>\<rparr>] \<and>
   fst (readJson (vectorStorePath (ascii ''/p''))
     (snd (indexDocumentation alphaPipeline (ascii ''/p'') exampleDependency exampleRepository
          [textDocument ''/c.md'' ''gamma''] None
          (snd (indexDocumentation alphaPipeline (ascii ''/p'') exampleDependency
                  exampleRepository [textDocument ''/b.md'' ''beta''] None emptyWorld))))) =
     Inr \<lparr>entries =
       [\<lparr>chunk = ascii ''beta'', embedding = [1, 0],
         metadata = \<lparr>repository = ascii ''https://github.com/expressjs/express'',
                      file' = ascii ''/b.md'', dependency = ascii ''express''\<rparr>\<rparr>,
        \<lparr>chunk = ascii ''gamma'', embedding = [1, 0],
         metadata = \<lparr>repository = ascii ''https://github.com/expressjs/express'',
                      file' = ascii ''/c.md'', dependency = ascii ''express''\<rparr>\<rparr>]\<rparr>"
proof -
  let ?w1 = "snd (indexDocumentation alphaPipeline (ascii ''/p'') exampleDependency
                  exampleRepository [textDocument ''/b.md'' ''beta''] None emptyWorld)"
  let ?run = "indexDocumentation alphaPipeline (ascii ''/p'') exampleDependency
                exampleRepository [textDocument ''/c.md'' ''gamma''] None ?w1"
  let ?beta = "\<lparr>chunk = ascii ''beta'', embedding = [1, 0],
       metadata = \<lparr>repository = ascii ''https://github.com/expressjs/express'',
                    file' = ascii ''/b.md'', dependency = ascii ''express''\<rparr>\<rparr>"
  have ok: "fst ?run = Inr ()" by code_simp
  then have a: "?run = (Inr (), snd ?run)" by (simp add: prod_eq_iff)
  have old: "storedEntries ?w1 (vectorStorePath (ascii ''/p'')) = [?beta]" by code_simp
  have jobs: "indexJobs [textDocument ''/c.md'' ''gamma''] =
      [(textDocument ''/c.md'' ''gamma'', ascii ''gamma'')]" by code_simp
  have g: "Option.bind (embeddingGenerator alphaPipeline None ?w1) (\<lambda>g. g (ascii ''gamma'')) =
      Some [1, 0]" by code_simp
  have meta: "url exampleRepository = ascii ''https://github.com/expressjs/express''"
    "name exampleDependency = ascii ''express''"
    "path (textDocument ''/c.md'' ''gamma'') = ascii ''/c.md''"
    by (simp_all add: exampleRepository_def exampleDependency_def textDocument_def)
  from appended_records_are_loaded [OF a] obtain new where
    r: "fst (readJson (vectorStorePath (ascii ''/p'')) (snd ?run)) =
          Inr \<lparr>entries = storedEntries ?w1 (vectorStorePath (ascii ''/p'')) @ new\<rparr>" and
    n: "list_all2 (isRecordOf (embeddingGenerator alphaPipeline None ?w1) exampleDependency
          exampleRepository) (indexJobs [textDocument ''/c.md'' ''gamma'']) new"
    by blast
  from n obtain e where new: "new = [e]" and
    e: "isRecordOf (embeddingGenerator alphaPipeline None ?w1) exampleDependency
          exampleRepository (textDocument ''/c.md'' ''gamma'', ascii ''gamma'') e"
    unfolding jobs by (auto simp: list_all2_Cons1)
  from e g have "e = \<lparr>chunk = ascii ''gamma'', embedding = [1, 0],
         metadata = \<lparr>repository = ascii ''https://github.com/expressjs/express'',
                      file' = ascii ''/c.md'', dependency = ascii ''express''\<rparr>\<rparr>"
    by (cases e) (simp add: isRecordOf_def meta)
  with ok old r new show ?thesis by simp
qed

section \<open>The claims about the chunker\<close>




text \<open>
  The merge guard of \<open>splitIntoChunks\<close> on a small document: for \<open>abc\<close>,
  \<open># h\<close>, \<open>def\<close> with the bounds 5 and 7 the last section is the four characters
  \<open>\ndef\<close>; the guard \<open>3 + 4 <= 7\<close> passes and the merged chunk has 8 characters.
\<close>

lemma merged_chunk_exceeds_small_maxSize:
  "regexSplit headerRegex (ascii ''abc\<newline># h\<newline>def'') = [ascii ''abc\<newline>'', ascii ''\<newline>def''] \<and>
   splitIntoChunks (textDocument ''/a.md'' ''abc\<newline># h\<newline>def'') 5 7 = [ascii ''abc\<newline>\<newline>def''] \<and>
   length (ascii ''abc\<newline>\<newline>def'') = 8"
  by code_simp

text \<open>Positions where the pattern does not match are passed over.\<close>

lemma splitLoop_skip:
  assumes "\<And>i. q \<le> i \<Longrightarrow> i < k \<Longrightarrow> re (prevChar s i) (drop i s) = None"
    and "q \<le> k" and "k \<le> length s"
  shows "splitLoop re s p q = splitLoop re s p k"
  using assms
proof (induction "k - q" arbitrary: q)
  case 0
  then show ?case by simp
next
  case (Suc d)
  then have lt: "q < k" by simp
  with Suc.prems have "re (prevChar s q) (drop q s) = None" by simp
  with lt Suc.prems(3) have "splitLoop re s p q = splitLoop re s p (Suc q)"
    by (subst splitLoop.simps) simp
  also have "\<dots> = splitLoop re s p k"
    using Suc.hyps Suc.prems lt by (intro Suc.hyps(1)) auto
  finally show ?case .
qed

lemma headerRegex_no_hash:
  "rest \<noteq> [] \<Longrightarrow> hd rest \<noteq> 0x23 \<Longrightarrow> headerRegex prev rest = None"
  by (cases rest) (simp_all add: headerRegex_def run_def)

lemma headerSplits_longDocument:
  "regexSplit headerRegex (content longDocument) =
     [replicate 7996 0x61 @ ascii ''\<newline>'', ascii ''\<newline>def'']"
proof -
  let ?s = "replicate 7996 (0x61 :: jschar) @ ascii ''\<newline># h\<newline>def''"
  have len: "length ?s = 8004" by (simp add: ascii_def)
  have skip: "splitLoop headerRegex ?s 0 0 = splitLoop headerRegex ?s 0 7996"
  proof (rule splitLoop_skip)
    fix i :: nat assume "0 \<le> i" "i < 7996"
    then have "drop i ?s = replicate (7996 - i) 0x61 @ ascii ''\<newline># h\<newline>def''"
      by simp
    moreover from \<open>i < 7996\<close> obtain m where "7996 - i = Suc m" by (cases "7996 - i") auto
    ultimately have "drop i ?s \<noteq> []" "hd (drop i ?s) \<noteq> 0x23" by simp_all
    then show "headerRegex (prevChar ?s i) (drop i ?s) = None"
      by (rule headerRegex_no_hash)
  qed (simp_all add: ascii_def)
  have s1: "splitLoop headerRegex ?s 0 7996 = splitLoop headerRegex ?s 0 7997"
    by (subst splitLoop.simps)
       (simp add: ascii_def prevChar_def nth_append headerRegex_def atLineStart_def
          isLineTerminator_def)
  have s2: "splitLoop headerRegex ?s 0 7997 =
      (replicate 7996 0x61 @ ascii ''\<newline>'') # splitLoop headerRegex ?s 8000 8000"
    by (subst splitLoop.simps)
       (simp add: prevChar_def nth_append headerRegex_def atLineStart_def atLineEnd_def
          isLineTerminator_def isSpace_def isWhiteSpace_def run_def ascii_def substring_def)
  have s3: "splitLoop headerRegex ?s 8000 8000 = splitLoop headerRegex ?s 8000 8004"
  proof (rule splitLoop_skip)
    fix i :: nat assume "8000 \<le> i" "i < 8004"
    then have "i = 8000 \<or> i = 8001 \<or> i = 8002 \<or> i = 8003" by arith
    then have "drop i ?s \<noteq> [] \<and> hd (drop i ?s) \<noteq> 0x23"
      by (auto simp: ascii_def)
    then show "headerRegex (prevChar ?s i) (drop i ?s) = None"
      by (simp add: headerRegex_no_hash)
  qed (simp_all add: ascii_def)
  have s4: "splitLoop headerRegex ?s 8000 8004 = [ascii ''\<newline>def'']"
    by (subst splitLoop.simps) (simp add: ascii_def substring_def)
  from skip s1 s2 s3 s4 show ?thesis
    by (simp add: regexSplit_def longDocument_def)
qed


lemma trim_replicate_newline: "trim (replicate 7996 0x61 @ ascii ''\<newline>'') = replicate 7996 0x61"
proof -
  have a: "\<not> isSpace (0x61 :: jschar)"
    by (simp add: isSpace_def isWhiteSpace_def isLineTerminator_def)
  have b: "isSpace (0x0A :: jschar)"
    by (simp add: isSpace_def isLineTerminator_def)
  have "dropWhile isSpace (replicate 7996 (0x61 :: jschar) @ [0x0A]) = replicate 7996 0x61 @ [0x0A]"
    using a by (simp add: dropWhile_append3 replicate_Suc [symmetric] del: replicate_Suc)
  then show ?thesis using a b
    by (simp add: trim_def ascii_def)
qed

text \<open>
  Claim C6 (an undersized section is appended to the preceding chunk only if the
  combined chunk stays within \<open>max_size\<close>): the code tests
  \<open>lastChunk.length + split.length <= maxSize\<close>, with the untrimmed length of the
  section and without the two characters of the separator. With the default bounds 800
  and 8000 the first section of \<open>longDocument\<close> gives a chunk of 7996 characters, the
  last section \<open>\ndef\<close> has 4, the guard \<open>7996 + 4 <= 8000\<close> passes, and the
  merged chunk has 8001 characters.
\<close>

theorem merged_chunk_exceeds_default_maxSize:
  "splitIntoChunks longDocument 800 8000 = [replicate 7996 0x61 @ ascii ''\<newline>\<newline>def''] \<and>
   length (replicate 7996 (0x61 :: jschar) @ ascii ''\<newline>\<newline>def'') = 8001"
proof -
  have t: "trim (ascii ''\<newline>def'') = ascii ''def''" by code_simp
  show ?thesis
    by (simp add: splitIntoChunks_def headerSplits_longDocument sectionStep_def
        trim_replicate_newline t blankLine_def)
       (simp add: ascii_def)
qed

end
